theory Spec2Isabelle
  imports Complex_Main "HOL-Library.AList" "HOL-Library.Sublist" "HOL-Library.Multiset"
begin

section \<open>The Matamazon ledger (matamazon.py)\<close>

text \<open>
  The ledger of \<^verbatim>\<open>matamazon.py\<close> as pure functions over an explicit system state.

  \<^item> Python integers are \<open>int\<close>; the \<open>isinstance\<close> tests of the validators are the typing
    of the model, their sign tests are branches of it.
  \<^item> Python floats are values of \<open>pyfloat\<close>: the finite doubles as rationals, negative
    zero, the two infinities and NaN. Arithmetic rounds to the nearest double, ties to
    even; converting an integer that is too large raises \<open>OverflowError\<close>; comparisons
    with NaN are false.
  \<^item> Strings are sequences of code points below 256.
  \<^item> A dictionary is an association list in insertion order with at most one entry per
    key: assigning to a key that is present overwrites the value where it stands,
    assigning to a new key appends, \<open>del\<close> drops the entry.
  \<^item> Objects held in a dictionary are mutated in place by the source; the model writes the
    changed record back under its key.
  \<^item> Every operation returns the state it leaves behind together with either the raised
    exception (\<open>Inl\<close>) or the returned value (\<open>Inr\<close>).
\<close>

subsection \<open>Exceptions\<close>

datatype error = InvalidIdException | InvalidPriceException | OverflowError

subsection \<open>Python floats\<close>

text \<open>
  \<open>Finite r\<close> is the double of value \<open>r\<close> (\<open>Finite 0\<close> is \<open>0.0\<close>), \<open>NegZero\<close> is \<open>-0.0\<close>,
  \<open>Infinity False\<close> is \<open>inf\<close> and \<open>Infinity True\<close> is \<open>-inf\<close>.
\<close>

datatype pyfloat = Finite rat | NegZero | Infinity bool | NaN

text \<open>A number as the validators and constructors accept it: an \<open>int\<close> or a \<open>float\<close>.\<close>

datatype number = IntV int | FloatV pyfloat

text \<open>\<open>int.bit_length()\<close>\<close>

function bit_length :: "int \<Rightarrow> int" where
  "bit_length n = (if n \<le> 0 then 0 else 1 + bit_length (n div 2))"
  by pat_completeness auto
termination
  by (relation "measure nat") auto

declare bit_length.simps [simp del]

definition pow2 :: "int \<Rightarrow> rat" where
  "pow2 k = (if 0 \<le> k then 2 ^ nat k else 1 / 2 ^ nat (- k))"

text \<open>For \<open>r > 0\<close>, the exponent \<open>e\<close> with \<open>2^e \<le> r < 2^(e+1)\<close>.\<close>

definition floor_log2 :: "rat \<Rightarrow> int" where
  "floor_log2 r =
     (if 1 \<le> r then bit_length \<lfloor>r\<rfloor> - 1 else - bit_length (\<lceil>1 / r\<rceil> - 1))"

definition round_half_even :: "rat \<Rightarrow> int" where
  "round_half_even x =
     (let f = \<lfloor>x\<rfloor>; d = x - of_int f
      in if d < 1 / 2 then f else if 1 / 2 < d then f + 1 else if even f then f else f + 1)"

text \<open>
  Rounding a non-negative magnitude to the nearest double, ties to even: 53 significant
  bits, the spacing never below \<open>2^-1074\<close>; \<open>None\<close> when the rounded value reaches
  \<open>2^1024\<close>.
\<close>

definition round_double :: "rat \<Rightarrow> rat option" where
  "round_double m =
     (if m = 0 then Some 0
      else
        (let q = max (floor_log2 m - 52) (- 1074);
             n = round_half_even (m / pow2 q)
         in if 1024 < q + bit_length n then None else Some (of_int n * pow2 q)))"

text \<open>\<open>float(i)\<close> for an \<open>int\<close>: correctly rounded, \<open>OverflowError\<close> when out of range.\<close>

definition int_to_float :: "int \<Rightarrow> error + pyfloat" where
  "int_to_float i =
     (case round_double (of_int \<bar>i\<bar>) of
        None \<Rightarrow> Inl OverflowError
      | Some r \<Rightarrow> Inr (Finite (if i < 0 then - r else r)))"

text \<open>\<open>float(x)\<close> for a number: a float is returned as it is.\<close>

definition to_float :: "number \<Rightarrow> error + pyfloat" where
  "to_float v = (case v of IntV i \<Rightarrow> int_to_float i | FloatV f \<Rightarrow> Inr f)"

definition float_sign :: "pyfloat \<Rightarrow> bool" where
  "float_sign f =
     (case f of Finite r \<Rightarrow> r < 0 | NegZero \<Rightarrow> True | Infinity s \<Rightarrow> s | NaN \<Rightarrow> False)"

text \<open>The value of a finite float, and its magnitude.\<close>

definition float_val :: "pyfloat \<Rightarrow> rat" where
  "float_val f = (case f of Finite r \<Rightarrow> r | _ \<Rightarrow> 0)"

definition float_is_zero :: "pyfloat \<Rightarrow> bool" where
  "float_is_zero f = (f = Finite 0 \<or> f = NegZero)"

definition finite_of :: "bool \<Rightarrow> rat option \<Rightarrow> pyfloat" where
  "finite_of s m =
     (case m of
        None \<Rightarrow> Infinity s
      | Some r \<Rightarrow> if r = 0 then (if s then NegZero else Finite 0)
                  else Finite (if s then - r else r))"

text \<open>
  \<open>a * b\<close> on floats: NaN if an operand is NaN or the product is of an infinity and a
  zero; otherwise the sign is the exclusive or of the signs, and the magnitude is the
  exact product rounded, an overflow giving an infinity (no exception).
\<close>

definition float_mul :: "pyfloat \<Rightarrow> pyfloat \<Rightarrow> pyfloat" where
  "float_mul a b =
     (if a = NaN \<or> b = NaN then NaN
      else
        (case (a, b) of
           (Infinity s, _) \<Rightarrow> if float_is_zero b then NaN else Infinity (s \<noteq> float_sign b)
         | (_, Infinity t) \<Rightarrow> if float_is_zero a then NaN else Infinity (float_sign a \<noteq> t)
         | _ \<Rightarrow>
             finite_of (float_sign a \<noteq> float_sign b)
               (round_double (\<bar>float_val a\<bar> * \<bar>float_val b\<bar>))))"

text \<open>\<open>f * i\<close> for a float and an \<open>int\<close>: the \<open>int\<close> is converted first, which may raise.\<close>

definition float_mul_int :: "pyfloat \<Rightarrow> int \<Rightarrow> error + pyfloat" where
  "float_mul_int f i =
     (case int_to_float i of Inl e \<Rightarrow> Inl e | Inr g \<Rightarrow> Inr (float_mul f g))"

text \<open>\<open>a < b\<close>, \<open>a == b\<close> and \<open>a != b\<close> on floats.\<close>

definition float_lt :: "pyfloat \<Rightarrow> pyfloat \<Rightarrow> bool" where
  "float_lt a b =
     (if a = NaN \<or> b = NaN then False
      else
        (case (a, b) of
           (Infinity s, Infinity t) \<Rightarrow> s \<and> \<not> t
         | (Infinity s, _) \<Rightarrow> s
         | (_, Infinity t) \<Rightarrow> \<not> t
         | _ \<Rightarrow> float_val a < float_val b))"

definition float_eq :: "pyfloat \<Rightarrow> pyfloat \<Rightarrow> bool" where
  "float_eq a b =
     (if a = NaN \<or> b = NaN then False
      else
        (case (a, b) of
           (Infinity s, Infinity t) \<Rightarrow> s = t
         | (Infinity s, _) \<Rightarrow> False
         | (_, Infinity t) \<Rightarrow> False
         | _ \<Rightarrow> float_val a = float_val b))"

definition float_ne :: "pyfloat \<Rightarrow> pyfloat \<Rightarrow> bool" where
  "float_ne a b = (\<not> float_eq a b)"

text \<open>\<open>value < 0\<close> for a number, and \<open>f > v\<close> for a float and a number (exact for an \<open>int\<close>).\<close>

definition number_lt_zero :: "number \<Rightarrow> bool" where
  "number_lt_zero v = (case v of IntV i \<Rightarrow> i < 0 | FloatV f \<Rightarrow> float_lt f (Finite 0))"

definition float_gt_number :: "pyfloat \<Rightarrow> number \<Rightarrow> bool" where
  "float_gt_number f v =
     (case v of
        FloatV g \<Rightarrow> float_lt g f
      | IntV i \<Rightarrow>
          (case f of
             NaN \<Rightarrow> False
           | Infinity s \<Rightarrow> \<not> s
           | _ \<Rightarrow> of_int i < float_val f))"

subsection \<open>Validation helpers\<close>

definition is_valid_nonnegative_int :: "int \<Rightarrow> bool" where
  "is_valid_nonnegative_int v = (v \<ge> 0)"

definition validate_nonnegative_int :: "int \<Rightarrow> error + unit" where
  "validate_nonnegative_int v =
     (if \<not> is_valid_nonnegative_int v then Inl InvalidIdException else Inr ())"

text \<open>
  \<open>validate_nonnegative_price\<close> takes an \<open>int\<close> or a \<open>float\<close>; its test \<open>value < 0\<close> is false
  for NaN, which it therefore lets through.
\<close>

definition validate_nonnegative_price :: "number \<Rightarrow> error + unit" where
  "validate_nonnegative_price v =
     (if number_lt_zero v then Inl InvalidPriceException else Inr ())"

subsection \<open>Data classes\<close>

text \<open>
  \<open>Customer\<close> and \<open>Supplier\<close> have the same fields and the same constructor check, and the
  ledger reads only \<open>id\<close> and \<open>city\<close> of either; both are values of one record.
\<close>

record entity =
  ent_id :: int
  ent_name :: string
  ent_city :: string
  ent_address :: string

record product =
  prod_id :: int
  prod_name :: string
  prod_price :: pyfloat
  prod_supplier_id :: int
  prod_quantity :: int

record order =
  ord_id :: int
  ord_customer_id :: int
  ord_product_id :: int
  ord_quantity :: int
  ord_total_price :: pyfloat

definition Customer :: "int \<Rightarrow> string \<Rightarrow> string \<Rightarrow> string \<Rightarrow> error + entity" where
  "Customer i n c a =
     (if validate_nonnegative_int i \<noteq> Inr () then Inl InvalidIdException
      else Inr \<lparr>ent_id = i, ent_name = n, ent_city = c, ent_address = a\<rparr>)"

definition Supplier :: "int \<Rightarrow> string \<Rightarrow> string \<Rightarrow> string \<Rightarrow> error + entity" where
  "Supplier i n c a =
     (if validate_nonnegative_int i \<noteq> Inr () then Inl InvalidIdException
      else Inr \<lparr>ent_id = i, ent_name = n, ent_city = c, ent_address = a\<rparr>)"

text \<open>
  \<open>Product.__init__\<close> validates the four numbers and then stores \<open>float(price)\<close>, which
  raises \<open>OverflowError\<close> for an \<open>int\<close> price that is too large.
\<close>

definition Product :: "int \<Rightarrow> string \<Rightarrow> number \<Rightarrow> int \<Rightarrow> int \<Rightarrow> error + product" where
  "Product i n p sid q =
     (if validate_nonnegative_int i \<noteq> Inr () then Inl InvalidIdException
      else if validate_nonnegative_int sid \<noteq> Inr () then Inl InvalidIdException
      else if validate_nonnegative_int q \<noteq> Inr () then Inl InvalidIdException
      else if validate_nonnegative_price p \<noteq> Inr () then Inl InvalidPriceException
      else
        (case to_float p of
           Inl e \<Rightarrow> Inl e
         | Inr f \<Rightarrow>
             Inr \<lparr>prod_id = i, prod_name = n, prod_price = f,
                  prod_supplier_id = sid, prod_quantity = q\<rparr>))"

definition Order :: "int \<Rightarrow> int \<Rightarrow> int \<Rightarrow> int \<Rightarrow> number \<Rightarrow> error + order" where
  "Order i cid pid q tp =
     (if validate_nonnegative_int i \<noteq> Inr () then Inl InvalidIdException
      else if validate_nonnegative_int cid \<noteq> Inr () then Inl InvalidIdException
      else if validate_nonnegative_int pid \<noteq> Inr () then Inl InvalidIdException
      else if validate_nonnegative_int q \<noteq> Inr () then Inl InvalidIdException
      else if validate_nonnegative_price tp \<noteq> Inr () then Inl InvalidPriceException
      else
        (case to_float tp of
           Inl e \<Rightarrow> Inl e
         | Inr f \<Rightarrow>
             Inr \<lparr>ord_id = i, ord_customer_id = cid, ord_product_id = pid,
                  ord_quantity = q, ord_total_price = f\<rparr>))"

text \<open>
  \<open>Product.__lt__\<close>: ascending price, ties broken by id. With a NaN price \<open>!=\<close> is true and
  \<open><\<close> is false, so the result is \<open>False\<close> whatever the ids.
\<close>

definition Product_lt :: "product \<Rightarrow> product \<Rightarrow> bool" where
  "Product_lt self other =
     (if float_ne (prod_price self) (prod_price other)
      then float_lt (prod_price self) (prod_price other)
      else prod_id self < prod_id other)"

subsection \<open>Rendering of an order\<close>

text \<open>
  \<open>Order.__repr__\<close> formats four integers and one float. Integers print in decimal.
  How Python prints a float is a builtin outside the repository; it is the parameter
  \<open>float_str\<close>.
\<close>

fun str_nat :: "nat \<Rightarrow> string" where
  "str_nat n =
     (if n < 10 then [''0123456789'' ! n]
      else str_nat (n div 10) @ [''0123456789'' ! (n mod 10)])"

definition str_int :: "int \<Rightarrow> string" where
  "str_int i = (if i < 0 then CHR ''-'' # str_nat (nat (- i)) else str_nat (nat i))"

definition Order_repr :: "(pyfloat \<Rightarrow> string) \<Rightarrow> order \<Rightarrow> string" where
  "Order_repr float_str self =
     ''Order(id='' @ str_int (ord_id self) @
     '', customer_id='' @ str_int (ord_customer_id self) @
     '', product_id='' @ str_int (ord_product_id self) @
     '', quantity='' @ str_int (ord_quantity self) @
     '', total_price='' @ float_str (ord_total_price self) @ '')''"

subsection \<open>The system\<close>

record system =
  customers :: "(int \<times> entity) list"
  suppliers :: "(int \<times> entity) list"
  products :: "(int \<times> product) list"
  orders :: "(int \<times> order) list"
  next_order_id :: int

text \<open>\<open>MatamazonSystem.__init__\<close>\<close>

definition MatamazonSystem :: system where
  "MatamazonSystem =
     \<lparr>customers = [], suppliers = [], products = [], orders = [], next_order_id = 1\<rparr>"

text \<open>\<open>k in d\<close> for a dictionary.\<close>

definition has_key :: "('k \<times> 'v) list \<Rightarrow> 'k \<Rightarrow> bool" where
  "has_key d k = (map_of d k \<noteq> None)"

definition register_entity :: "system \<Rightarrow> entity \<Rightarrow> bool \<Rightarrow> (error + unit) \<times> system" where
  "register_entity s e is_customer =
     (if validate_nonnegative_int (ent_id e) \<noteq> Inr () then (Inl InvalidIdException, s)
      else if has_key (customers s) (ent_id e) \<or> has_key (suppliers s) (ent_id e)
      then (Inl InvalidIdException, s)
      else if is_customer
      then (Inr (), s\<lparr>customers := AList.update (ent_id e) e (customers s)\<rparr>)
      else (Inr (), s\<lparr>suppliers := AList.update (ent_id e) e (suppliers s)\<rparr>))"

definition add_or_update_product :: "system \<Rightarrow> product \<Rightarrow> (error + unit) \<times> system" where
  "add_or_update_product s p =
     (if \<not> has_key (suppliers s) (prod_supplier_id p) then (Inl InvalidIdException, s)
      else case map_of (products s) (prod_id p) of
        None \<Rightarrow> (Inr (), s\<lparr>products := AList.update (prod_id p) p (products s)\<rparr>)
      | Some existing \<Rightarrow>
          if prod_supplier_id existing \<noteq> prod_supplier_id p
          then (Inl InvalidIdException, s)
          else (Inr (),
                s\<lparr>products :=
                    AList.update (prod_id p)
                      (existing\<lparr>prod_name := prod_name p, prod_price := prod_price p,
                                prod_quantity := prod_quantity p\<rparr>)
                      (products s)\<rparr>))"

definition msg_no_product :: string where
  "msg_no_product = ''The product does not exist in the system''"

definition msg_shortage :: string where
  "msg_shortage =
     ''The quantity requested for this product is greater than the quantity in stock''"

definition msg_accepted :: string where
  "msg_accepted = ''The order has been accepted in the system''"

text \<open>
  \<open>place_order\<close> changes the product and the counter before it computes the total and
  constructs the \<open>Order\<close>; an exception of the multiplication (\<open>OverflowError\<close> when the
  quantity is too large for a float) or of the constructor leaves those two changes
  behind and stores no order.
\<close>

definition place_order :: "system \<Rightarrow> int \<Rightarrow> int \<Rightarrow> int \<Rightarrow> (error + string) \<times> system" where
  "place_order s customer_id product_id quantity =
     (if validate_nonnegative_int customer_id \<noteq> Inr () then (Inl InvalidIdException, s)
      else if validate_nonnegative_int product_id \<noteq> Inr () then (Inl InvalidIdException, s)
      else if validate_nonnegative_int quantity \<noteq> Inr () then (Inl InvalidIdException, s)
      else
        (case map_of (products s) product_id of
           None \<Rightarrow> (Inr msg_no_product, s)
         | Some p \<Rightarrow>
             if quantity > prod_quantity p then (Inr msg_shortage, s)
             else
               (let p' = p\<lparr>prod_quantity := prod_quantity p - quantity\<rparr>;
                    s1 = s\<lparr>products := AList.update product_id p' (products s)\<rparr>;
                    order_id = next_order_id s1;
                    s2 = s1\<lparr>next_order_id := next_order_id s1 + 1\<rparr>
                in (case float_mul_int (prod_price p') quantity of
                      Inl e \<Rightarrow> (Inl e, s2)
                    | Inr total_price \<Rightarrow>
                        (case Order order_id customer_id product_id quantity
                                (FloatV total_price) of
                           Inl e \<Rightarrow> (Inl e, s2)
                         | Inr ordr \<Rightarrow>
                             (Inr msg_accepted,
                              s2\<lparr>orders := AList.update order_id ordr (orders s2)\<rparr>))))))"

subsection \<open>Deletion\<close>

text \<open>
  \<open>str(class_type).strip().lower()\<close> on code points below 256: \<open>strip\<close> drops the leading
  and trailing characters that Python counts as white space (among them U+0085 and
  U+00A0), \<open>lower\<close> maps \<open>A\<close>..\<open>Z\<close> to \<open>a\<close>..\<open>z\<close> and the upper-case letters U+00C0..U+00DE
  (U+00D7, the multiplication sign, apart) to the letter 32 code points above.
\<close>

definition is_space :: "char \<Rightarrow> bool" where
  "is_space c =
     (c \<in> set [CHR 0x09, CHR 0x0A, CHR 0x0B, CHR 0x0C, CHR 0x0D,
                CHR 0x1C, CHR 0x1D, CHR 0x1E, CHR 0x1F, CHR 0x20, CHR 0x85, CHR 0xA0])"

definition strip :: "string \<Rightarrow> string" where
  "strip t = rev (dropWhile is_space (rev (dropWhile is_space t)))"

definition upper_letters :: "char list" where
  "upper_letters =
     ''ABCDEFGHIJKLMNOPQRSTUVWXYZ'' @
     [CHR 0xC0, CHR 0xC1, CHR 0xC2, CHR 0xC3, CHR 0xC4, CHR 0xC5, CHR 0xC6, CHR 0xC7,
      CHR 0xC8, CHR 0xC9, CHR 0xCA, CHR 0xCB, CHR 0xCC, CHR 0xCD, CHR 0xCE, CHR 0xCF,
      CHR 0xD0, CHR 0xD1, CHR 0xD2, CHR 0xD3, CHR 0xD4, CHR 0xD5, CHR 0xD6,
      CHR 0xD8, CHR 0xD9, CHR 0xDA, CHR 0xDB, CHR 0xDC, CHR 0xDD, CHR 0xDE]"

definition lower_letters :: "char list" where
  "lower_letters =
     ''abcdefghijklmnopqrstuvwxyz'' @
     [CHR 0xE0, CHR 0xE1, CHR 0xE2, CHR 0xE3, CHR 0xE4, CHR 0xE5, CHR 0xE6, CHR 0xE7,
      CHR 0xE8, CHR 0xE9, CHR 0xEA, CHR 0xEB, CHR 0xEC, CHR 0xED, CHR 0xEE, CHR 0xEF,
      CHR 0xF0, CHR 0xF1, CHR 0xF2, CHR 0xF3, CHR 0xF4, CHR 0xF5, CHR 0xF6,
      CHR 0xF8, CHR 0xF9, CHR 0xFA, CHR 0xFB, CHR 0xFC, CHR 0xFD, CHR 0xFE]"

definition lower_char :: "char \<Rightarrow> char" where
  "lower_char c =
     (case map_of (zip upper_letters lower_letters) c of
        None \<Rightarrow> c
      | Some d \<Rightarrow> d)"

definition lower :: "string \<Rightarrow> string" where
  "lower t = map lower_char t"

text \<open>The three dependency loops over \<open>self.orders.values()\<close>; \<open>True\<close> is the \<open>raise\<close>.\<close>

fun customer_has_orders :: "int \<Rightarrow> order list \<Rightarrow> bool" where
  "customer_has_orders i [] = False"
| "customer_has_orders i (x # xs) =
     (if ord_customer_id x = i then True else customer_has_orders i xs)"

fun product_has_orders :: "int \<Rightarrow> order list \<Rightarrow> bool" where
  "product_has_orders i [] = False"
| "product_has_orders i (x # xs) =
     (if ord_product_id x = i then True else product_has_orders i xs)"

fun supplier_has_orders :: "(int \<times> product) list \<Rightarrow> int \<Rightarrow> order list \<Rightarrow> bool" where
  "supplier_has_orders ps i [] = False"
| "supplier_has_orders ps i (x # xs) =
     (case map_of ps (ord_product_id x) of
        None \<Rightarrow> supplier_has_orders ps i xs
      | Some p \<Rightarrow> if prod_supplier_id p = i then True else supplier_has_orders ps i xs)"

definition remove_object :: "system \<Rightarrow> int \<Rightarrow> string \<Rightarrow> (error + int option) \<times> system" where
  "remove_object s i class_type =
     (if validate_nonnegative_int i \<noteq> Inr () then (Inl InvalidIdException, s)
      else
        (let ct = lower (strip class_type) in
         if ct = ''customer'' then
           (if \<not> has_key (customers s) i then (Inl InvalidIdException, s)
            else if customer_has_orders i (map snd (orders s)) then (Inl InvalidIdException, s)
            else (Inr None, s\<lparr>customers := AList.delete i (customers s)\<rparr>))
         else if ct = ''product'' then
           (if \<not> has_key (products s) i then (Inl InvalidIdException, s)
            else if product_has_orders i (map snd (orders s)) then (Inl InvalidIdException, s)
            else (Inr None, s\<lparr>products := AList.delete i (products s)\<rparr>))
         else if ct = ''supplier'' then
           (if \<not> has_key (suppliers s) i then (Inl InvalidIdException, s)
            else if supplier_has_orders (products s) i (map snd (orders s))
            then (Inl InvalidIdException, s)
            else (Inr None, s\<lparr>suppliers := AList.delete i (suppliers s)\<rparr>))
         else if ct = ''order'' then
           (case map_of (orders s) i of
              None \<Rightarrow> (Inl InvalidIdException, s)
            | Some ordr \<Rightarrow>
                (let s1 = s\<lparr>orders := AList.delete i (orders s)\<rparr> in
                 (case map_of (products s1) (ord_product_id ordr) of
                    None \<Rightarrow> (Inr (Some (ord_quantity ordr)), s1)
                  | Some p \<Rightarrow>
                      (Inr (Some (ord_quantity ordr)),
                       s1\<lparr>products :=
                            AList.update (ord_product_id ordr)
                              (p\<lparr>prod_quantity := prod_quantity p + ord_quantity ordr\<rparr>)
                              (products s1)\<rparr>))))
         else (Inl InvalidIdException, s)))"

subsection \<open>Search\<close>

text \<open>\<open>query in name\<close> on strings: \<open>query\<close> occurs in \<open>name\<close> as a contiguous block.\<close>

fun str_contains :: "string \<Rightarrow> string \<Rightarrow> bool" where
  "str_contains [] query = (query = [])"
| "str_contains (c # cs) query = (prefix query (c # cs) \<or> str_contains cs query)"

text \<open>The body of the loop over \<open>self.products.values()\<close>; each \<open>continue\<close> keeps \<open>res\<close>.\<close>

definition search_step ::
  "string \<Rightarrow> number option \<Rightarrow> product list \<Rightarrow> product \<Rightarrow> product list" where
  "search_step query max_price res p =
     (if prod_quantity p = 0 then res
      else if \<not> str_contains (prod_name p) query then res
      else if (case max_price of None \<Rightarrow> False | Some m \<Rightarrow> float_gt_number (prod_price p) m)
      then res
      else res @ [p])"

text \<open>
  \<open>sorted(res)\<close> is Python's builtin stable sort, which compares with \<open>__lt__\<close> only. It is
  modelled as the stable insertion sort: each element, from left to right, goes in front
  of the first element it is less than. This is the list the builtin returns whenever
  \<open>__lt__\<close> orders the elements consistently, and on any list of at most two elements;
  on longer lists with NaN prices the builtin's result depends on its algorithm.
\<close>

fun insort_lt :: "product \<Rightarrow> product list \<Rightarrow> product list" where
  "insort_lt x [] = [x]"
| "insort_lt x (y # ys) = (if Product_lt x y then x # y # ys else y # insort_lt x ys)"

definition sorted_py :: "product list \<Rightarrow> product list" where
  "sorted_py xs = foldl (\<lambda>acc x. insort_lt x acc) [] xs"

definition search_products :: "system \<Rightarrow> string \<Rightarrow> number option \<Rightarrow> product list" where
  "search_products s query max_price =
     sorted_py (foldl (search_step query max_price) [] (map snd (products s)))"

subsection \<open>Order export\<close>

text \<open>
  \<open>export_orders\<close> builds the dictionary \<open>grouped\<close> and hands it to \<open>json.dump\<close>; the model
  returns \<open>grouped\<close>, the mapping that is serialised.
\<close>

text \<open>The body of the loop over \<open>self.orders.values()\<close>.\<close>

definition export_step ::
  "(pyfloat \<Rightarrow> string) \<Rightarrow> system \<Rightarrow> (string \<times> string list) list \<Rightarrow> order
     \<Rightarrow> (string \<times> string list) list" where
  "export_step float_str s grouped x =
     (case map_of (products s) (ord_product_id x) of
        None \<Rightarrow> grouped
      | Some p \<Rightarrow>
          (case map_of (suppliers s) (prod_supplier_id p) of
             None \<Rightarrow> grouped
           | Some supp \<Rightarrow>
               (let city = ent_city supp;
                    grouped1 = (if \<not> has_key grouped city then AList.update city [] grouped
                                else grouped);
                    cur = (case map_of grouped1 city of None \<Rightarrow> [] | Some l \<Rightarrow> l)
                in AList.update city (cur @ [Order_repr float_str x]) grouped1)))"

definition export_orders ::
  "(pyfloat \<Rightarrow> string) \<Rightarrow> system \<Rightarrow> (string \<times> string list) list" where
  "export_orders float_str s = foldl (export_step float_str s) [] (map snd (orders s))"

subsection \<open>Runs of the ledger\<close>

text \<open>
  A command is one call of a mutating operation, with the entity built by its
  constructor as the dispatcher does. A call that raises leaves the state it had reached;
  a constructor that raises leaves the state untouched.
\<close>

datatype command =
    Register int string string string bool
  | AddOrUpdate int string number int int
  | PlaceOrder int int int
  | RemoveObject int string

fun exec :: "system \<Rightarrow> command \<Rightarrow> system" where
  "exec s (Register i n c a is_customer) =
     (case (if is_customer then Customer i n c a else Supplier i n c a) of
        Inl e \<Rightarrow> s
      | Inr ent \<Rightarrow> snd (register_entity s ent is_customer))"
| "exec s (AddOrUpdate i n p sid q) =
     (case Product i n p sid q of
        Inl e \<Rightarrow> s
      | Inr pr \<Rightarrow> snd (add_or_update_product s pr))"
| "exec s (PlaceOrder cid pid q) = snd (place_order s cid pid q)"
| "exec s (RemoveObject i ct) = snd (remove_object s i ct)"

definition run :: "command list \<Rightarrow> system" where
  "run cs = foldl exec MatamazonSystem cs"

definition reachable :: "system \<Rightarrow> bool" where
  "reachable s = (\<exists>cs. s = run cs)"

subsection \<open>Well-formed states and the post-states of the order lifecycle\<close>

text \<open>
  What every run of the ledger maintains: a stored product sits under its own id and has
  non-negative id and stock and a price that is not negative (it may be NaN); a stored
  order sits under its own id, which is at
  least 1 and below the counter, and has a non-negative quantity; a stored entity sits
  under its own non-negative id and no id is a key of both entity registries; no registry
  holds a key twice; the counter is at least 1.
\<close>

definition products_ok :: "system \<Rightarrow> bool" where
  "products_ok s =
     (\<forall>k p. map_of (products s) k = Some p \<longrightarrow>
        prod_id p = k \<and> 0 \<le> k \<and> 0 \<le> prod_quantity p \<and>
        \<not> float_lt (prod_price p) (Finite 0))"

definition orders_ok :: "system \<Rightarrow> bool" where
  "orders_ok s =
     (\<forall>k x. map_of (orders s) k = Some x \<longrightarrow>
        ord_id x = k \<and> 1 \<le> k \<and> k < next_order_id s \<and> 0 \<le> ord_quantity x)"

definition entities_ok :: "system \<Rightarrow> bool" where
  "entities_ok s =
     ((\<forall>k e. map_of (customers s) k = Some e \<longrightarrow> ent_id e = k \<and> 0 \<le> k) \<and>
      (\<forall>k e. map_of (suppliers s) k = Some e \<longrightarrow> ent_id e = k \<and> 0 \<le> k) \<and>
      (\<forall>k. \<not> (has_key (customers s) k \<and> has_key (suppliers s) k)))"

definition keys_distinct :: "system \<Rightarrow> bool" where
  "keys_distinct s =
     (distinct (map fst (customers s)) \<and> distinct (map fst (suppliers s)) \<and>
      distinct (map fst (products s)) \<and> distinct (map fst (orders s)))"

definition wf_system :: "system \<Rightarrow> bool" where
  "wf_system s =
     (products_ok s \<and> orders_ok s \<and> entities_ok s \<and> keys_distinct s \<and> 1 \<le> next_order_id s)"

text \<open>
  The state a placement leaves when it raises after the stock check, the state an
  accepted placement leaves, and the state a removed order leaves.
\<close>

definition consumed_state :: "system \<Rightarrow> int \<Rightarrow> int \<Rightarrow> product \<Rightarrow> system" where
  "consumed_state s pid q p =
     s\<lparr>products := AList.update pid (p\<lparr>prod_quantity := prod_quantity p - q\<rparr>) (products s),
       next_order_id := next_order_id s + 1\<rparr>"

definition accepted_state ::
  "system \<Rightarrow> int \<Rightarrow> int \<Rightarrow> int \<Rightarrow> product \<Rightarrow> pyfloat \<Rightarrow> system" where
  "accepted_state s cid pid q p tot =
     s\<lparr>products := AList.update pid (p\<lparr>prod_quantity := prod_quantity p - q\<rparr>) (products s),
       next_order_id := next_order_id s + 1,
       orders := AList.update (next_order_id s)
                   \<lparr>ord_id = next_order_id s, ord_customer_id = cid, ord_product_id = pid,
                    ord_quantity = q, ord_total_price = tot\<rparr>
                   (orders s)\<rparr>"

definition order_removed_state :: "system \<Rightarrow> int \<Rightarrow> order \<Rightarrow> system" where
  "order_removed_state s i x =
     (case map_of (products s) (ord_product_id x) of
        None \<Rightarrow> s\<lparr>orders := AList.delete i (orders s)\<rparr>
      | Some p \<Rightarrow>
          s\<lparr>orders := AList.delete i (orders s),
            products := AList.update (ord_product_id x)
                          (p\<lparr>prod_quantity := prod_quantity p + ord_quantity x\<rparr>) (products s)\<rparr>)"

text \<open>
  Counting the accepted placements of a run: \<open>accepts s c\<close> holds when \<open>c\<close> is a placement
  that \<open>place_order\<close> accepts in state \<open>s\<close>.
\<close>

definition accepts :: "system \<Rightarrow> command \<Rightarrow> bool" where
  "accepts s c =
     (case c of
        PlaceOrder cid pid q \<Rightarrow> fst (place_order s cid pid q) = Inr msg_accepted
      | _ \<Rightarrow> False)"

fun count_accepted :: "system \<Rightarrow> command list \<Rightarrow> nat" where
  "count_accepted s [] = 0"
| "count_accepted s (c # cs) = (if accepts s c then 1 else 0) + count_accepted (exec s c) cs"

text \<open>
  The city \<open>export_orders\<close> files an order under: the two lookups of its loop body, \<open>None\<close>
  when the product or the product's supplier is missing.
\<close>

definition order_city :: "system \<Rightarrow> order \<Rightarrow> string option" where
  "order_city s x =
     (case map_of (products s) (ord_product_id x) of
        None \<Rightarrow> None
      | Some p \<Rightarrow>
          (case map_of (suppliers s) (prod_supplier_id p) of
             None \<Rightarrow> None
           | Some supp \<Rightarrow> Some (ent_city supp)))"

text \<open>
  A float printer for the examples: a float whose value is a whole number below \<open>10^16\<close>
  prints in Python as the digits of that number followed by \<open>.0\<close>. It is applied to such
  values only.
\<close>

definition str_float_integral :: "pyfloat \<Rightarrow> string" where
  "str_float_integral v = str_int \<lfloor>float_val v\<rfloor> @ ''.0''"

text \<open>No stored product has a NaN price.\<close>

definition nan_free :: "system \<Rightarrow> bool" where
  "nan_free s = (\<forall>p \<in> snd ` set (products s). prod_price p \<noteq> NaN)"

subsection \<open>Example runs\<close>

text \<open>
  Supplier 1 registered and product 10 stocked with three units; then two of them
  ordered by customer 7; then that order removed again.
\<close>

definition scenario_stocked :: system where
  "scenario_stocked =
     run [Register 1 ''Acme'' ''NYC'' ''5th Ave'' False, AddOrUpdate 10 ''Widget'' (FloatV (Finite (5 / 2))) 1 3]"

definition scenario_ordered :: system where
  "scenario_ordered =
     run [Register 1 ''Acme'' ''NYC'' ''5th Ave'' False, AddOrUpdate 10 ''Widget'' (FloatV (Finite (5 / 2))) 1 3,
          PlaceOrder 7 10 2]"

definition scenario_order_removed :: system where
  "scenario_order_removed =
     run [Register 1 ''Acme'' ''NYC'' ''5th Ave'' False, AddOrUpdate 10 ''Widget'' (FloatV (Finite (5 / 2))) 1 3,
          PlaceOrder 7 10 2, RemoveObject 1 ''order'']"

text \<open>Supplier 1 removed while its product 10, which no order references, stays.\<close>

definition scenario_supplier_removed :: system where
  "scenario_supplier_removed =
     run [Register 1 ''Acme'' ''NYC'' ''5th Ave'' False, AddOrUpdate 10 ''Widget'' (FloatV (Finite (5 / 2))) 1 3,
          RemoveObject 1 ''supplier'']"

text \<open>A catalog of four products, and the same four added in the opposite order.\<close>

definition scenario_catalog :: system where
  "scenario_catalog =
     run [Register 1 ''Acme'' ''NYC'' ''5th Ave'' False,
          AddOrUpdate 10 ''Widget'' (FloatV (Finite (5 / 2))) 1 3,
          AddOrUpdate 11 ''Widget Pro'' (FloatV (Finite (5 / 2))) 1 4,
          AddOrUpdate 12 ''Wide Widget'' (FloatV (Finite 1)) 1 5,
          AddOrUpdate 13 ''Widget Zero'' (FloatV (Finite 1)) 1 0]"

definition scenario_catalog_reordered :: system where
  "scenario_catalog_reordered =
     run [Register 1 ''Acme'' ''NYC'' ''5th Ave'' False,
          AddOrUpdate 13 ''Widget Zero'' (FloatV (Finite 1)) 1 0,
          AddOrUpdate 12 ''Wide Widget'' (FloatV (Finite 1)) 1 5,
          AddOrUpdate 11 ''Widget Pro'' (FloatV (Finite (5 / 2))) 1 4,
          AddOrUpdate 10 ''Widget'' (FloatV (Finite (5 / 2))) 1 3]"

text \<open>
  Product 10 stocked with \<open>2^1024\<close> units, a quantity that is a valid non-negative integer
  and too large to convert to a float.
\<close>

definition scenario_bulk :: system where
  "scenario_bulk =
     run [Register 1 ''Acme'' ''NYC'' ''5th Ave'' False,
          AddOrUpdate 10 ''Widget'' (FloatV (Finite (5 / 2))) 1 (2 ^ 1024)]"

text \<open>
  Two products, one of them with a NaN price (the command \<open>add 10 Widget nan 1 3\<close>), and
  the same two added in the opposite order.
\<close>

definition scenario_nan :: system where
  "scenario_nan =
     run [Register 1 ''Acme'' ''NYC'' ''5th Ave'' False,
          AddOrUpdate 10 ''Widget'' (FloatV NaN) 1 3,
          AddOrUpdate 11 ''Widget Pro'' (FloatV (Finite 1)) 1 4]"

definition scenario_nan_reordered :: system where
  "scenario_nan_reordered =
     run [Register 1 ''Acme'' ''NYC'' ''5th Ave'' False,
          AddOrUpdate 11 ''Widget Pro'' (FloatV (Finite 1)) 1 4,
          AddOrUpdate 10 ''Widget'' (FloatV NaN) 1 3]"

text \<open>Two suppliers in two cities and three orders, the first and third on the same product.\<close>

definition scenario_two_cities :: system where
  "scenario_two_cities =
     run [Register 1 ''Acme'' ''NYC'' ''5th Ave'' False,
          Register 2 ''Bolt'' ''LA'' ''Main St'' False,
          AddOrUpdate 10 ''Widget'' (FloatV (Finite (5 / 2))) 1 5,
          AddOrUpdate 20 ''Gear'' (FloatV (Finite 1)) 2 5,
          PlaceOrder 7 10 2, PlaceOrder 8 20 3, PlaceOrder 9 10 2]"

section \<open>Basic facts about floats\<close>

lemma pow2_pos: "0 < pow2 k"
  by (simp add: pow2_def)

lemma round_half_even_ge_floor: "\<lfloor>x\<rfloor> \<le> round_half_even x"
  by (simp add: round_half_even_def Let_def)

lemma round_half_even_nonneg: "0 \<le> x \<Longrightarrow> 0 \<le> round_half_even x"
  using round_half_even_ge_floor[of x] by (simp add: order_trans[of 0 "\<lfloor>x\<rfloor>"])

lemma round_double_nonneg:
  assumes "0 \<le> m" "round_double m = Some r"
  shows "0 \<le> r"
proof (cases "m = 0")
  case True
  with assms(2) show ?thesis by (simp add: round_double_def)
next
  case False
  let ?q = "max (floor_log2 m - 52) (- 1074)"
  from assms(1) have "0 \<le> m / pow2 ?q" using pow2_pos[of ?q] by simp
  then have "0 \<le> round_half_even (m / pow2 ?q)" by (rule round_half_even_nonneg)
  then have "0 \<le> rat_of_int (round_half_even (m / pow2 ?q)) * pow2 ?q"
    using pow2_pos[of ?q] by simp
  with assms(2) False show ?thesis
    by (auto simp: round_double_def Let_def split: if_splits)
qed

lemma int_to_float_nonneg:
  assumes "0 \<le> i" "int_to_float i = Inr f"
  shows "\<exists>r. f = Finite r \<and> 0 \<le> r"
proof -
  from assms(2) obtain r where r: "round_double (of_int \<bar>i\<bar>) = Some r"
    and f: "f = Finite (if i < 0 then - r else r)"
    by (auto simp: int_to_float_def split: option.splits)
  have "0 \<le> r" using round_double_nonneg[OF _ r] by simp
  with f assms(1) show ?thesis by simp
qed

lemma float_mul_not_negative:
  assumes "\<not> float_lt a (Finite 0)" "0 \<le> r"
  shows "\<not> float_lt (float_mul a (Finite r)) (Finite 0)"
proof (cases a)
  case (Finite x)
  with assms(1) have x: "0 \<le> x" by (simp add: float_lt_def float_val_def)
  have "0 \<le> \<bar>x\<bar> * \<bar>r\<bar>" by simp
  then have "\<And>v. round_double (\<bar>x\<bar> * \<bar>r\<bar>) = Some v \<Longrightarrow> 0 \<le> v"
    by (rule round_double_nonneg)
  with Finite x assms(2) show ?thesis
    by (auto simp: float_mul_def float_lt_def float_val_def float_sign_def finite_of_def
        split: option.splits)
next
  case NegZero
  then show ?thesis
    by (simp add: float_mul_def float_lt_def float_val_def float_sign_def finite_of_def
        round_double_def)
next
  case (Infinity s)
  with assms show ?thesis
    by (auto simp: float_mul_def float_lt_def float_val_def float_sign_def float_is_zero_def)
next
  case NaN
  then show ?thesis by (simp add: float_mul_def float_lt_def)
qed

lemma float_mul_int_not_negative:
  assumes "\<not> float_lt a (Finite 0)" "0 \<le> q" "float_mul_int a q = Inr t"
  shows "\<not> float_lt t (Finite 0)"
proof -
  from assms(3) obtain g where g: "int_to_float q = Inr g" and t: "t = float_mul a g"
    by (auto simp: float_mul_int_def split: sum.splits)
  from int_to_float_nonneg[OF assms(2) g] obtain r where "g = Finite r" "0 \<le> r" by blast
  with t assms(1) show ?thesis by (simp add: float_mul_not_negative)
qed

text \<open>An integer from \<open>2^1024\<close> on does not convert to a float.\<close>

lemma bit_length_nonneg: "0 \<le> bit_length n"
  by (induction n rule: bit_length.induct) (subst bit_length.simps, simp)

lemma bit_length_ge: "2 ^ k \<le> n \<Longrightarrow> int k + 1 \<le> bit_length n"
proof (induction k arbitrary: n)
  case 0
  then show ?case
    using bit_length_nonneg[of "n div 2"] by (subst bit_length.simps) simp
next
  case (Suc k)
  from Suc.prems have "2 ^ k \<le> n div 2" by simp
  moreover have "(0::int) < 2 ^ Suc k" by simp
  with Suc.prems have "0 < n" by linarith
  ultimately show ?case
    using Suc.IH[of "n div 2"] by (subst bit_length.simps) simp
qed

lemma bit_length_lower: "1 \<le> n \<Longrightarrow> 2 ^ nat (bit_length n - 1) \<le> n"
proof (induction n rule: bit_length.induct)
  case (1 n)
  show ?case
  proof (cases "n = 1")
    case True
    then show ?thesis
      by (subst bit_length.simps) (simp add: bit_length.simps[of 0])
  next
    case False
    with "1.prems" have h: "1 \<le> n div 2" "\<not> n \<le> 0" by simp_all
    from "1.IH"[OF h(2) h(1)] have ih: "2 ^ nat (bit_length (n div 2) - 1) \<le> n div 2" .
    from bit_length_ge[of 0 "n div 2"] h(1) have b: "1 \<le> bit_length (n div 2)" by simp
    have "bit_length n = 1 + bit_length (n div 2)"
      using h(2) by (subst bit_length.simps) simp
    then have "nat (bit_length n - 1) = Suc (nat (bit_length (n div 2) - 1))"
      using b by simp
    then have "(2::int) ^ nat (bit_length n - 1) = 2 * 2 ^ nat (bit_length (n div 2) - 1)"
      by simp
    also have "\<dots> \<le> 2 * (n div 2)" using ih by simp
    also have "\<dots> \<le> n" by simp
    finally show ?thesis .
  qed
qed

lemma round_double_overflow:
  assumes "2 ^ 1024 \<le> i"
  shows "round_double (of_int i) = None"
proof -
  let ?L = "bit_length i"
  from assms have i1: "1 \<le> i" by (simp add: order_trans[of 1 "2 ^ 1024"])
  from bit_length_ge[OF assms] have L: "1025 \<le> ?L" by simp
  have fl: "floor_log2 (of_int i) = ?L - 1"
    using i1 by (simp add: floor_log2_def)
  let ?q = "?L - 53"
  have q: "max (floor_log2 (of_int i) - 52) (- 1074) = ?q" using fl L by simp
  have pq: "pow2 ?q = 2 ^ nat ?q" using L by (simp add: pow2_def)
  let ?n = "round_half_even (of_int i / pow2 ?q)"
  from L have "nat (?L - 1) = nat ?q + 52" by simp
  then have "(2::int) ^ nat (?L - 1) = 2 ^ nat ?q * 2 ^ 52"
    by (simp only: power_add)
  with bit_length_lower[OF i1] have "(2::int) ^ nat ?q * 2 ^ 52 \<le> i" by simp
  then have "rat_of_int (2 ^ nat ?q * 2 ^ 52) \<le> rat_of_int i" by (simp only: of_int_le_iff)
  then have "(2::rat) ^ 52 \<le> of_int i / pow2 ?q"
    by (simp add: pq pos_le_divide_eq mult.commute)
  then have "(2::int) ^ 52 \<le> \<lfloor>rat_of_int i / pow2 ?q\<rfloor>"
    by (simp add: le_floor_iff)
  then have "(2::int) ^ 52 \<le> ?n"
    by (rule order_trans[OF _ round_half_even_ge_floor])
  from bit_length_ge[OF this] have "53 \<le> bit_length ?n" by simp
  with L have "1024 < ?q + bit_length ?n" by simp
  moreover from i1 have "rat_of_int i \<noteq> 0" by simp
  ultimately show ?thesis
    by (simp add: round_double_def Let_def q del: of_int_eq_0_iff)
qed

lemma int_to_float_overflow: "2 ^ 1024 \<le> i \<Longrightarrow> int_to_float i = Inl OverflowError"
proof -
  assume h: "2 ^ 1024 \<le> i"
  then have "\<bar>i\<bar> = i" by (simp add: order_trans[of 0 "2 ^ 1024"])
  with round_double_overflow[OF h] show ?thesis by (simp add: int_to_float_def)
qed

lemma float_mul_int_overflow: "2 ^ 1024 \<le> i \<Longrightarrow> float_mul_int f i = Inl OverflowError"
  by (simp add: float_mul_int_def int_to_float_overflow)

section \<open>Basic facts about the operations\<close>

lemma valid_int_iff: "(validate_nonnegative_int v \<noteq> Inr ()) = (v < 0)"
  by (auto simp: validate_nonnegative_int_def is_valid_nonnegative_int_def)

lemma valid_price_iff: "(validate_nonnegative_price v \<noteq> Inr ()) = number_lt_zero v"
  by (simp add: validate_nonnegative_price_def)

lemma Order_ok:
  "0 \<le> i \<Longrightarrow> 0 \<le> cid \<Longrightarrow> 0 \<le> pid \<Longrightarrow> 0 \<le> q \<Longrightarrow> \<not> float_lt tp (Finite 0) \<Longrightarrow>
   Order i cid pid q (FloatV tp) =
     Inr \<lparr>ord_id = i, ord_customer_id = cid, ord_product_id = pid,
          ord_quantity = q, ord_total_price = tp\<rparr>"
  by (simp add: Order_def valid_int_iff valid_price_iff number_lt_zero_def to_float_def)

lemma place_order_invalid:
  "cid < 0 \<or> pid < 0 \<or> q < 0 \<Longrightarrow> place_order s cid pid q = (Inl InvalidIdException, s)"
  by (auto simp: place_order_def valid_int_iff)

lemma place_order_missing:
  "0 \<le> cid \<Longrightarrow> 0 \<le> pid \<Longrightarrow> 0 \<le> q \<Longrightarrow> map_of (products s) pid = None \<Longrightarrow>
   place_order s cid pid q = (Inr msg_no_product, s)"
  by (simp add: place_order_def valid_int_iff)

lemma place_order_short:
  "0 \<le> cid \<Longrightarrow> 0 \<le> pid \<Longrightarrow> 0 \<le> q \<Longrightarrow> map_of (products s) pid = Some p \<Longrightarrow>
   prod_quantity p < q \<Longrightarrow> place_order s cid pid q = (Inr msg_shortage, s)"
  by (simp add: place_order_def valid_int_iff)

lemma place_order_raises:
  assumes "0 \<le> cid" "0 \<le> pid" "0 \<le> q" "map_of (products s) pid = Some p"
    "q \<le> prod_quantity p" "float_mul_int (prod_price p) q = Inl e"
  shows "place_order s cid pid q = (Inl e, consumed_state s pid q p)"
  using assms by (simp add: place_order_def valid_int_iff Let_def consumed_state_def)

lemma place_order_accept:
  assumes "0 \<le> cid" "0 \<le> pid" "0 \<le> q" "map_of (products s) pid = Some p"
    "q \<le> prod_quantity p" "0 \<le> next_order_id s" "\<not> float_lt (prod_price p) (Finite 0)"
    "float_mul_int (prod_price p) q = Inr t"
  shows "place_order s cid pid q = (Inr msg_accepted, accepted_state s cid pid q p t)"
proof -
  have "\<not> float_lt t (Finite 0)"
    using assms(7,3,8) by (rule float_mul_int_not_negative)
  then show ?thesis using assms
    by (simp add: place_order_def valid_int_iff Order_ok Let_def accepted_state_def)
qed

lemma wf_init: "wf_system MatamazonSystem"
  by (simp add: wf_system_def MatamazonSystem_def products_ok_def orders_ok_def
      entities_ok_def keys_distinct_def has_key_def)

lemma Customer_Inr: "Customer i n c a = Inr e \<Longrightarrow> ent_id e = i \<and> 0 \<le> i"
  by (auto simp: Customer_def valid_int_iff split: if_splits)

lemma Supplier_Inr: "Supplier i n c a = Inr e \<Longrightarrow> ent_id e = i \<and> 0 \<le> i"
  by (auto simp: Supplier_def valid_int_iff split: if_splits)

lemma to_float_not_negative:
  assumes "\<not> number_lt_zero v" "to_float v = Inr f"
  shows "\<not> float_lt f (Finite 0)"
proof (cases v)
  case (IntV i)
  with assms have "0 \<le> i" "int_to_float i = Inr f"
    by (simp_all add: number_lt_zero_def to_float_def)
  from int_to_float_nonneg[OF this] show ?thesis
    by (auto simp: float_lt_def float_val_def)
next
  case (FloatV g)
  with assms show ?thesis by (simp add: number_lt_zero_def to_float_def)
qed

lemma Product_Inr:
  assumes "Product i n p sid q = Inr pr"
  shows "prod_id pr = i \<and> prod_name pr = n \<and> prod_supplier_id pr = sid \<and> prod_quantity pr = q \<and>
     to_float p = Inr (prod_price pr) \<and>
     0 \<le> i \<and> 0 \<le> sid \<and> 0 \<le> q \<and> \<not> float_lt (prod_price pr) (Finite 0)"
proof -
  from assms have v: "0 \<le> i" "0 \<le> sid" "0 \<le> q" "\<not> number_lt_zero p"
    by (auto simp: Product_def valid_int_iff valid_price_iff split: if_splits)
  with assms obtain f where f: "to_float p = Inr f"
    and pr: "pr = \<lparr>prod_id = i, prod_name = n, prod_price = f,
                  prod_supplier_id = sid, prod_quantity = q\<rparr>"
    by (auto simp: Product_def valid_int_iff valid_price_iff split: sum.splits)
  from to_float_not_negative[OF v(4) f] v f pr show ?thesis by simp
qed

lemma wf_register:
  assumes "wf_system s" "0 \<le> ent_id e"
  shows "wf_system (snd (register_entity s e b))"
proof -
  let ?s' = "snd (register_entity s e b)"
  have 1: "products_ok ?s'"
    using assms by (simp add: register_entity_def wf_system_def products_ok_def)
  have 2: "orders_ok ?s'"
    using assms by (simp add: register_entity_def wf_system_def orders_ok_def)
  from assms have "entities_ok s" by (simp add: wf_system_def)
  then have 3: "entities_ok ?s'"
    using assms(2)
    by (auto simp: register_entity_def entities_ok_def has_key_def update_conv')
  from assms have "keys_distinct s" by (simp add: wf_system_def)
  then have 4: "keys_distinct ?s'"
    by (simp add: register_entity_def keys_distinct_def distinct_update)
  have 5: "1 \<le> next_order_id ?s'"
    using assms by (simp add: register_entity_def wf_system_def)
  from 1 2 3 4 5 show ?thesis by (simp add: wf_system_def)
qed

lemma wf_add:
  assumes "wf_system s" "0 \<le> prod_id p" "0 \<le> prod_quantity p"
    "\<not> float_lt (prod_price p) (Finite 0)"
  shows "wf_system (snd (add_or_update_product s p))"
proof -
  let ?s' = "snd (add_or_update_product s p)"
  from assms have "products_ok s" by (simp add: wf_system_def)
  then have 1: "products_ok ?s'"
    using assms(2-4)
    by (auto simp: add_or_update_product_def products_ok_def update_conv' split: option.splits)
  have 2: "orders_ok ?s'"
    using assms(1)
    by (simp add: add_or_update_product_def wf_system_def orders_ok_def split: option.splits)
  have 3: "entities_ok ?s'"
    using assms(1)
    by (simp add: add_or_update_product_def wf_system_def entities_ok_def split: option.splits)
  from assms have "keys_distinct s" by (simp add: wf_system_def)
  then have 4: "keys_distinct ?s'"
    by (simp add: add_or_update_product_def keys_distinct_def distinct_update split: option.splits)
  have 5: "1 \<le> next_order_id ?s'"
    using assms(1) by (simp add: add_or_update_product_def wf_system_def split: option.splits)
  from 1 2 3 4 5 show ?thesis by (simp add: wf_system_def)
qed

lemma place_order_cases:
  assumes "products_ok s" "1 \<le> next_order_id s"
  shows "snd (place_order s cid pid q) = s \<and> fst (place_order s cid pid q) \<noteq> Inr msg_accepted \<or>
     (\<exists>p e. 0 \<le> cid \<and> 0 \<le> pid \<and> 0 \<le> q \<and> map_of (products s) pid = Some p \<and> q \<le> prod_quantity p \<and>
          float_mul_int (prod_price p) q = Inl e \<and>
          place_order s cid pid q = (Inl e, consumed_state s pid q p)) \<or>
     (\<exists>p t. 0 \<le> cid \<and> 0 \<le> pid \<and> 0 \<le> q \<and> map_of (products s) pid = Some p \<and> q \<le> prod_quantity p \<and>
          float_mul_int (prod_price p) q = Inr t \<and>
          place_order s cid pid q = (Inr msg_accepted, accepted_state s cid pid q p t))"
proof (cases "cid < 0 \<or> pid < 0 \<or> q < 0")
  case True
  then show ?thesis by (simp add: place_order_invalid)
next
  case valid: False
  show ?thesis
  proof (cases "map_of (products s) pid")
    case None
    with valid show ?thesis by (simp add: place_order_missing msg_no_product_def msg_accepted_def)
  next
    case (Some p)
    show ?thesis
    proof (cases "prod_quantity p < q")
      case True
      with valid Some show ?thesis by (simp add: place_order_short msg_shortage_def msg_accepted_def)
    next
      case False
      from assms(1) Some have pos: "\<not> float_lt (prod_price p) (Finite 0)"
        by (simp add: products_ok_def)
      show ?thesis
      proof (cases "float_mul_int (prod_price p) q")
        case (Inl e)
        with valid Some False have
          "place_order s cid pid q = (Inl e, consumed_state s pid q p)"
          by (intro place_order_raises) auto
        with valid Some False Inl show ?thesis by auto
      next
        case (Inr t)
        with valid Some False assms(2) pos have
          "place_order s cid pid q = (Inr msg_accepted, accepted_state s cid pid q p t)"
          by (intro place_order_accept) auto
        with valid Some False Inr show ?thesis by auto
      qed
    qed
  qed
qed

lemma wf_consumed_state:
  assumes "wf_system s" "0 \<le> q" "map_of (products s) pid = Some p" "q \<le> prod_quantity p"
  shows "wf_system (consumed_state s pid q p)"
proof -
  let ?s' = "consumed_state s pid q p"
  from assms(1) have ok: "products_ok s" "orders_ok s" by (simp_all add: wf_system_def)
  from ok(1) assms(3) have p: "prod_id p = pid" "0 \<le> pid"
    "\<not> float_lt (prod_price p) (Finite 0)"
    by (auto simp: products_ok_def)
  have 1: "products_ok ?s'"
    using ok(1) assms(4) p by (auto simp: products_ok_def consumed_state_def update_conv')
  from assms(1) have n: "1 \<le> next_order_id s" by (simp add: wf_system_def)
  have 2: "orders_ok ?s'"
    using ok(2) by (fastforce simp: orders_ok_def consumed_state_def)
  have 3: "entities_ok ?s'"
    using assms(1) by (simp add: wf_system_def entities_ok_def consumed_state_def)
  from assms have "keys_distinct s" by (simp add: wf_system_def)
  then have 4: "keys_distinct ?s'"
    by (simp add: keys_distinct_def consumed_state_def distinct_update)
  have 5: "1 \<le> next_order_id ?s'"
    using n by (simp add: consumed_state_def)
  from 1 2 3 4 5 show ?thesis by (simp add: wf_system_def)
qed

lemma wf_accepted_state:
  assumes "wf_system s" "0 \<le> cid" "0 \<le> pid" "0 \<le> q" "map_of (products s) pid = Some p"
    "q \<le> prod_quantity p"
  shows "wf_system (accepted_state s cid pid q p t)"
proof -
  let ?s' = "accepted_state s cid pid q p t"
  from assms(1) have ok: "products_ok s" "orders_ok s" by (simp_all add: wf_system_def)
  from ok(1) assms(5) have p: "prod_id p = pid" "\<not> float_lt (prod_price p) (Finite 0)"
    by (auto simp: products_ok_def)
  have 1: "products_ok ?s'"
    using ok(1) assms(3,6) p by (auto simp: products_ok_def accepted_state_def update_conv')
  from assms(1) have n: "1 \<le> next_order_id s" by (simp add: wf_system_def)
  have 2: "orders_ok ?s'"
    using ok(2) assms(4) n by (fastforce simp: orders_ok_def accepted_state_def update_conv')
  have 3: "entities_ok ?s'"
    using assms(1) by (simp add: wf_system_def entities_ok_def accepted_state_def)
  from assms have "keys_distinct s" by (simp add: wf_system_def)
  then have 4: "keys_distinct ?s'"
    by (simp add: keys_distinct_def accepted_state_def distinct_update)
  have 5: "1 \<le> next_order_id ?s'"
    using n by (simp add: accepted_state_def)
  from 1 2 3 4 5 show ?thesis by (simp add: wf_system_def)
qed

lemma wf_place:
  assumes "wf_system s"
  shows "wf_system (snd (place_order s cid pid q))"
proof -
  from assms have "products_ok s" "1 \<le> next_order_id s" by (simp_all add: wf_system_def)
  from place_order_cases[OF this, of cid pid q] show ?thesis
    using assms by (auto simp: wf_accepted_state wf_consumed_state)
qed

lemma remove_object_invalid: "i < 0 \<Longrightarrow> remove_object s i ct = (Inl InvalidIdException, s)"
  by (simp add: remove_object_def valid_int_iff)

lemma remove_object_customer:
  "0 \<le> i \<Longrightarrow> lower (strip ct) = ''customer'' \<Longrightarrow>
   remove_object s i ct =
     (if \<not> has_key (customers s) i \<or> customer_has_orders i (map snd (orders s))
      then (Inl InvalidIdException, s)
      else (Inr None, s\<lparr>customers := AList.delete i (customers s)\<rparr>))"
  by (simp add: remove_object_def valid_int_iff)

lemma remove_object_product:
  "0 \<le> i \<Longrightarrow> lower (strip ct) = ''product'' \<Longrightarrow>
   remove_object s i ct =
     (if \<not> has_key (products s) i \<or> product_has_orders i (map snd (orders s))
      then (Inl InvalidIdException, s)
      else (Inr None, s\<lparr>products := AList.delete i (products s)\<rparr>))"
  by (simp add: remove_object_def valid_int_iff)

lemma remove_object_supplier:
  "0 \<le> i \<Longrightarrow> lower (strip ct) = ''supplier'' \<Longrightarrow>
   remove_object s i ct =
     (if \<not> has_key (suppliers s) i \<or> supplier_has_orders (products s) i (map snd (orders s))
      then (Inl InvalidIdException, s)
      else (Inr None, s\<lparr>suppliers := AList.delete i (suppliers s)\<rparr>))"
  by (simp add: remove_object_def valid_int_iff)

lemma remove_object_order:
  "0 \<le> i \<Longrightarrow> lower (strip ct) = ''order'' \<Longrightarrow>
   remove_object s i ct =
     (case map_of (orders s) i of
        None \<Rightarrow> (Inl InvalidIdException, s)
      | Some x \<Rightarrow> (Inr (Some (ord_quantity x)), order_removed_state s i x))"
  by (simp add: remove_object_def valid_int_iff order_removed_state_def Let_def
      split: option.splits)

lemma remove_object_unknown:
  "lower (strip ct) \<notin> {''customer'', ''product'', ''supplier'', ''order''} \<Longrightarrow>
   remove_object s i ct = (Inl InvalidIdException, s)"
  by (simp add: remove_object_def)

lemma remove_object_cases:
  "snd (remove_object s i ct) = s \<or>
   snd (remove_object s i ct) = s\<lparr>customers := AList.delete i (customers s)\<rparr> \<or>
   snd (remove_object s i ct) = s\<lparr>products := AList.delete i (products s)\<rparr> \<and>
      \<not> product_has_orders i (map snd (orders s)) \<or>
   snd (remove_object s i ct) = s\<lparr>suppliers := AList.delete i (suppliers s)\<rparr> \<or>
   (\<exists>x. map_of (orders s) i = Some x \<and> snd (remove_object s i ct) = order_removed_state s i x)"
proof (cases "i < 0")
  case True
  then show ?thesis by (simp add: remove_object_invalid)
next
  case False
  then have i: "0 \<le> i" by simp
  consider "lower (strip ct) = ''customer''" | "lower (strip ct) = ''product''"
    | "lower (strip ct) = ''supplier''" | "lower (strip ct) = ''order''"
    | "lower (strip ct) \<notin> {''customer'', ''product'', ''supplier'', ''order''}"
    by blast
  then show ?thesis
  proof cases
    case 1 then show ?thesis by (simp add: remove_object_customer[OF i])
  next
    case 2 then show ?thesis by (simp add: remove_object_product[OF i])
  next
    case 3 then show ?thesis by (simp add: remove_object_supplier[OF i])
  next
    case 4 then show ?thesis by (simp add: remove_object_order[OF i] split: option.splits)
  next
    case 5 then show ?thesis by (simp add: remove_object_unknown)
  qed
qed

lemma wf_del_customer:
  assumes "wf_system s"
  shows "wf_system (s\<lparr>customers := AList.delete i (customers s)\<rparr>)"
proof -
  let ?s' = "s\<lparr>customers := AList.delete i (customers s)\<rparr>"
  from assms have "entities_ok s" by (simp add: wf_system_def)
  then have 3: "entities_ok ?s'"
    by (auto simp: entities_ok_def has_key_def delete_conv')
  from assms have "keys_distinct s" by (simp add: wf_system_def)
  then have 4: "keys_distinct ?s'" by (simp add: keys_distinct_def distinct_delete)
  from assms 3 4 show ?thesis by (simp add: wf_system_def products_ok_def orders_ok_def)
qed

lemma wf_del_supplier:
  assumes "wf_system s"
  shows "wf_system (s\<lparr>suppliers := AList.delete i (suppliers s)\<rparr>)"
proof -
  let ?s' = "s\<lparr>suppliers := AList.delete i (suppliers s)\<rparr>"
  from assms have "entities_ok s" by (simp add: wf_system_def)
  then have 3: "entities_ok ?s'"
    by (auto simp: entities_ok_def has_key_def delete_conv')
  from assms have "keys_distinct s" by (simp add: wf_system_def)
  then have 4: "keys_distinct ?s'" by (simp add: keys_distinct_def distinct_delete)
  from assms 3 4 show ?thesis by (simp add: wf_system_def products_ok_def orders_ok_def)
qed

lemma wf_del_product:
  assumes "wf_system s"
  shows "wf_system (s\<lparr>products := AList.delete i (products s)\<rparr>)"
proof -
  let ?s' = "s\<lparr>products := AList.delete i (products s)\<rparr>"
  from assms have "products_ok s" by (simp add: wf_system_def)
  then have 1: "products_ok ?s'"
    by (auto simp: products_ok_def delete_conv')
  from assms have "keys_distinct s" by (simp add: wf_system_def)
  then have 4: "keys_distinct ?s'" by (simp add: keys_distinct_def distinct_delete)
  from assms 1 4 show ?thesis by (simp add: wf_system_def entities_ok_def orders_ok_def)
qed

lemma wf_order_removed:
  assumes "wf_system s" "map_of (orders s) i = Some x"
  shows "wf_system (order_removed_state s i x)"
proof -
  let ?s' = "order_removed_state s i x"
  from assms(1) have ok: "products_ok s" "orders_ok s" by (simp_all add: wf_system_def)
  from ok(2) assms(2) have q: "0 \<le> ord_quantity x" by (simp add: orders_ok_def)
  have 1: "products_ok ?s'"
    using ok(1) q
    by (auto simp: products_ok_def order_removed_state_def update_conv' split: option.splits)
  have 2: "orders_ok ?s'"
    using ok(2)
    by (auto simp: orders_ok_def order_removed_state_def delete_conv' split: option.splits)
  have 3: "entities_ok ?s'"
    using assms(1)
    by (simp add: wf_system_def entities_ok_def order_removed_state_def split: option.splits)
  from assms have "keys_distinct s" by (simp add: wf_system_def)
  then have 4: "keys_distinct ?s'"
    by (simp add: keys_distinct_def order_removed_state_def distinct_update distinct_delete
        split: option.splits)
  have 5: "1 \<le> next_order_id ?s'"
    using assms(1) by (simp add: wf_system_def order_removed_state_def split: option.splits)
  from 1 2 3 4 5 show ?thesis by (simp add: wf_system_def)
qed

lemma wf_remove:
  assumes "wf_system s"
  shows "wf_system (snd (remove_object s i ct))"
  using remove_object_cases[of s i ct] assms
  by (auto simp: wf_del_customer wf_del_supplier wf_del_product wf_order_removed)

lemma wf_exec: "wf_system s \<Longrightarrow> wf_system (exec s c)"
proof (cases c)
  case (Register i n ci a b)
  assume "wf_system s"
  then show ?thesis using Register
    by (auto split: sum.splits if_splits dest!: Customer_Inr Supplier_Inr intro: wf_register)
next
  case (AddOrUpdate i n p sid q)
  assume "wf_system s"
  then show ?thesis using AddOrUpdate
    by (auto split: sum.splits dest!: Product_Inr intro!: wf_add)
next
  case (PlaceOrder cid pid q)
  assume "wf_system s"
  then show ?thesis using PlaceOrder by (simp add: wf_place)
next
  case (RemoveObject i ct)
  assume "wf_system s"
  then show ?thesis using RemoveObject by (simp add: wf_remove)
qed

lemma wf_foldl: "wf_system s \<Longrightarrow> wf_system (foldl exec s cs)"
  by (induction cs arbitrary: s) (simp_all add: wf_exec)

lemma reachable_wf: "reachable s \<Longrightarrow> wf_system s"
  by (auto simp: reachable_def run_def wf_foldl wf_init)

lemma reachable_run: "reachable (run cs)"
  by (auto simp: reachable_def)

lemma reachable_exec: "reachable s \<Longrightarrow> reachable (exec s c)"
proof -
  assume "reachable s"
  then obtain cs where "s = run cs" by (auto simp: reachable_def)
  then have "exec s c = run (cs @ [c])" by (simp add: run_def)
  then show ?thesis by (simp add: reachable_run)
qed

lemma scenario_stocked_eq:
  "scenario_stocked =
     \<lparr>customers = [],
      suppliers = [(1, \<lparr>ent_id = 1, ent_name = ''Acme'', ent_city = ''NYC'',
                        ent_address = ''5th Ave''\<rparr>)],
      products = [(10, \<lparr>prod_id = 10, prod_name = ''Widget'', prod_price = Finite (5 / 2),
                        prod_supplier_id = 1, prod_quantity = 3\<rparr>)],
      orders = [], next_order_id = 1\<rparr>"
  by code_simp

lemma scenario_ordered_eq:
  "scenario_ordered =
     \<lparr>customers = [],
      suppliers = [(1, \<lparr>ent_id = 1, ent_name = ''Acme'', ent_city = ''NYC'',
                        ent_address = ''5th Ave''\<rparr>)],
      products = [(10, \<lparr>prod_id = 10, prod_name = ''Widget'', prod_price = Finite (5 / 2),
                        prod_supplier_id = 1, prod_quantity = 1\<rparr>)],
      orders = [(1, \<lparr>ord_id = 1, ord_customer_id = 7, ord_product_id = 10,
                     ord_quantity = 2, ord_total_price = Finite 5\<rparr>)],
      next_order_id = 2\<rparr>"
  by code_simp

lemma reachable_scenario_stocked: "reachable scenario_stocked"
  unfolding scenario_stocked_def by (rule reachable_run)

lemma reachable_scenario_ordered: "reachable scenario_ordered"
  unfolding scenario_ordered_def by (rule reachable_run)

lemma update_new_key: "map_of al k = None \<Longrightarrow> AList.update k v al = al @ [(k, v)]"
  by (induction al) (auto split: if_splits)

lemma next_id_fresh: "wf_system s \<Longrightarrow> map_of (orders s) (next_order_id s) = None"
proof (rule ccontr)
  assume wf: "wf_system s" and "map_of (orders s) (next_order_id s) \<noteq> None"
  then obtain x where "map_of (orders s) (next_order_id s) = Some x" by auto
  with wf have "next_order_id s < next_order_id s"
    unfolding wf_system_def orders_ok_def by blast
  then show False by simp
qed

lemma place_order_accept_wf:
  assumes "wf_system s" "0 \<le> cid" "map_of (products s) pid = Some p" "0 \<le> q"
    "q \<le> prod_quantity p" "float_mul_int (prod_price p) q = Inr t"
  shows "place_order s cid pid q = (Inr msg_accepted, accepted_state s cid pid q p t)"
proof -
  from assms(1,3) have "0 \<le> pid" "\<not> float_lt (prod_price p) (Finite 0)"
    unfolding wf_system_def products_ok_def by blast+
  moreover from assms(1) have "0 \<le> next_order_id s" by (simp add: wf_system_def)
  ultimately show ?thesis using assms by (intro place_order_accept) auto
qed

lemma place_order_raises_wf:
  assumes "wf_system s" "0 \<le> cid" "map_of (products s) pid = Some p" "0 \<le> q"
    "q \<le> prod_quantity p" "float_mul_int (prod_price p) q = Inl e"
  shows "place_order s cid pid q = (Inl e, consumed_state s pid q p)"
proof -
  from assms(1,3) have "0 \<le> pid" unfolding wf_system_def products_ok_def by blast
  then show ?thesis using assms by (intro place_order_raises) auto
qed

lemma place_order_accept_exact:
  assumes "reachable s" "0 \<le> cid" "map_of (products s) pid = Some p" "0 \<le> q"
    "q \<le> prod_quantity p" "float_mul_int (prod_price p) q = Inr t"
  shows "place_order s cid pid q =
        (Inr ''The order has been accepted in the system'',
         s\<lparr>products :=
             AList.update pid (p\<lparr>prod_quantity := prod_quantity p - q\<rparr>) (products s),
           next_order_id := next_order_id s + 1,
           orders :=
             orders s @
             [(next_order_id s,
               \<lparr>ord_id = next_order_id s, ord_customer_id = cid, ord_product_id = pid,
                ord_quantity = q, ord_total_price = t\<rparr>)]\<rparr>)"
proof -
  from assms(1) have wf: "wf_system s" by (rule reachable_wf)
  have "place_order s cid pid q = (Inr msg_accepted, accepted_state s cid pid q p t)"
    using wf assms(2-6) by (rule place_order_accept_wf)
  then show ?thesis
    by (simp add: accepted_state_def msg_accepted_def update_new_key[OF next_id_fresh[OF wf]])
qed

lemma scenario_bulk_eq:
  "scenario_bulk =
     \<lparr>customers = [],
      suppliers = [(1, \<lparr>ent_id = 1, ent_name = ''Acme'', ent_city = ''NYC'',
                        ent_address = ''5th Ave''\<rparr>)],
      products = [(10, \<lparr>prod_id = 10, prod_name = ''Widget'', prod_price = Finite (5 / 2),
                        prod_supplier_id = 1, prod_quantity = 2 ^ 1024\<rparr>)],
      orders = [], next_order_id = 1\<rparr>"
  by (simp add: scenario_bulk_def run_def MatamazonSystem_def Supplier_def Product_def
      valid_int_iff valid_price_iff number_lt_zero_def float_lt_def float_val_def to_float_def
      register_entity_def add_or_update_product_def has_key_def)

lemma reachable_scenario_bulk: "reachable scenario_bulk"
  unfolding scenario_bulk_def by (rule reachable_run)

section \<open>Order placement\<close>

lemma place_order_bulk:
  assumes "0 \<le> cid"
  shows "place_order scenario_bulk cid 10 (2 ^ 1024) =
     (Inl OverflowError,
      scenario_bulk\<lparr>products :=
          [(10, \<lparr>prod_id = 10, prod_name = ''Widget'', prod_price = Finite (5 / 2),
                 prod_supplier_id = 1, prod_quantity = 0\<rparr>)],
        next_order_id := 2\<rparr>)"
proof -
  let ?p = "\<lparr>prod_id = 10, prod_name = ''Widget'', prod_price = Finite (5 / 2),
                 prod_supplier_id = 1, prod_quantity = 2 ^ 1024\<rparr>"
  have m: "map_of (products scenario_bulk) 10 = Some ?p"
    by (simp add: scenario_bulk_eq)
  have o: "float_mul_int (prod_price ?p) (2 ^ 1024) = Inl OverflowError"
    by (rule float_mul_int_overflow) simp
  have "place_order scenario_bulk cid 10 (2 ^ 1024) =
      (Inl OverflowError, consumed_state scenario_bulk 10 (2 ^ 1024) ?p)"
    using reachable_wf[OF reachable_scenario_bulk] assms m _ _ o
    by (rule place_order_raises_wf) simp_all
  then show ?thesis by (simp add: consumed_state_def scenario_bulk_eq)
qed

text \<open>
  C1. The claim holds whenever the total \<open>product.price * quantity\<close> can be computed (lemma
  \<open>place_order_accept_exact\<close>: stock lowered by the quantity, next id allocated, order
  stored with that total, success message). The code falls short of it at a quantity
  that does not convert to a float: with \<open>2^1024\<close> units of product 10 in stock,
  \<open>place_order(7, 10, 2**1024)\<close> passes the stock check, lowers the stock to 0, advances
  the counter to 2, and then raises \<open>OverflowError\<close> in the multiplication; no order is
  stored and no success message is returned.
\<close>

theorem place_order_overflow_after_mutation:
  "reachable scenario_bulk \<and>
   map_of (products scenario_bulk) 10 =
     Some \<lparr>prod_id = 10, prod_name = ''Widget'', prod_price = Finite (5 / 2),
           prod_supplier_id = 1, prod_quantity = 2 ^ 1024\<rparr> \<and>
   place_order scenario_bulk 7 10 (2 ^ 1024) =
     (Inl OverflowError,
      scenario_bulk\<lparr>products :=
          [(10, \<lparr>prod_id = 10, prod_name = ''Widget'', prod_price = Finite (5 / 2),
                 prod_supplier_id = 1, prod_quantity = 0\<rparr>)],
        next_order_id := 2\<rparr>) \<and>
   orders (snd (place_order scenario_bulk 7 10 (2 ^ 1024))) = []"
proof -
  have 1: "map_of (products scenario_bulk) 10 =
     Some \<lparr>prod_id = 10, prod_name = ''Widget'', prod_price = Finite (5 / 2),
           prod_supplier_id = 1, prod_quantity = 2 ^ 1024\<rparr>"
    by (simp add: scenario_bulk_eq)
  have 2: "place_order scenario_bulk 7 10 (2 ^ 1024) =
     (Inl OverflowError,
      scenario_bulk\<lparr>products :=
          [(10, \<lparr>prod_id = 10, prod_name = ''Widget'', prod_price = Finite (5 / 2),
                 prod_supplier_id = 1, prod_quantity = 0\<rparr>)],
        next_order_id := 2\<rparr>)"
    by (rule place_order_bulk) simp
  have 3: "orders (snd (place_order scenario_bulk 7 10 (2 ^ 1024))) = []"
    by (simp only: 2) (simp add: scenario_bulk_eq)
  from reachable_scenario_bulk 1 2 3 show ?thesis by blast
qed

text \<open>The scenario of the claim: two of the three units of product 10 ordered by customer 7.\<close>

lemma place_order_scenario:
  "place_order scenario_stocked 7 10 2 =
     (Inr ''The order has been accepted in the system'', scenario_ordered) \<and>
   map_of (products scenario_ordered) 10 =
     Some \<lparr>prod_id = 10, prod_name = ''Widget'', prod_price = Finite (5 / 2),
           prod_supplier_id = 1, prod_quantity = 1\<rparr> \<and>
   map_of (orders scenario_ordered) 1 =
     Some \<lparr>ord_id = 1, ord_customer_id = 7, ord_product_id = 10,
           ord_quantity = 2, ord_total_price = Finite 5\<rparr>"
proof -
  have "place_order scenario_stocked 7 10 2 =
     (Inr ''The order has been accepted in the system'', scenario_ordered)"
    by code_simp
  then show ?thesis by (simp add: scenario_ordered_eq)
qed

text \<open>The stored total is the rounded float product: \<open>0.1 * 3\<close> is \<open>0.30000000000000004\<close>.\<close>

lemma float_mul_int_rounds:
  "float_mul_int (Finite (3602879701896397 / 2 ^ 55)) 3 =
     Inr (Finite (5404319552844596 / 2 ^ 54))"
  by code_simp

section \<open>Rejected placements\<close>

lemma place_order_boundary_not_rejected:
  assumes "0 \<le> cid" "0 \<le> pid" "map_of (products s) pid = Some p" "0 \<le> prod_quantity p"
  shows "fst (place_order s cid pid (prod_quantity p)) \<noteq> Inr msg_shortage \<and>
         fst (place_order s cid pid (prod_quantity p)) \<noteq> Inr msg_no_product"
  using assms
  by (simp add: place_order_def valid_int_iff Let_def msg_shortage_def msg_no_product_def
      msg_accepted_def split: sum.splits)

lemma place_order_boundary_accepted:
  assumes "reachable s" "0 \<le> cid" "map_of (products s) pid = Some p"
    "float_mul_int (prod_price p) (prod_quantity p) \<noteq> Inl OverflowError"
  shows "fst (place_order s cid pid (prod_quantity p)) = Inr msg_accepted"
proof -
  from assms(1,3) have q: "0 \<le> prod_quantity p"
    using reachable_wf[of s] unfolding wf_system_def products_ok_def by blast
  from assms(4) obtain t where t: "float_mul_int (prod_price p) (prod_quantity p) = Inr t"
    by (cases "float_mul_int (prod_price p) (prod_quantity p)")
      (auto simp: float_mul_int_def int_to_float_def split: sum.splits option.splits)
  from place_order_accept_wf[OF reachable_wf[OF assms(1)] assms(2,3) q _ t]
  show ?thesis by simp
qed

text \<open>
  C2. For every state and valid (non-negative) arguments, \<open>place_order\<close> does not raise
  when the product is missing or the requested quantity exceeds the stock: it returns
  the corresponding message and the state it was given, counter included. The boundary:
  a request for more than the stock is rejected, a request for exactly the stock is not
  (it gets neither rejection message), and in every reachable state it is accepted
  unless the multiplication raises \<open>OverflowError\<close>. In the scenario with one unit left,
  \<open>place_order(7, 10, 5)\<close> returns the exact shortage message and leaves product 10 at
  quantity 1.
\<close>

theorem place_order_rejections:
  "(\<forall>s cid pid q.
      0 \<le> cid \<and> 0 \<le> pid \<and> 0 \<le> q \<and> map_of (products s) pid = None \<longrightarrow>
      place_order s cid pid q = (Inr ''The product does not exist in the system'', s)) \<and>
   (\<forall>s cid pid q p.
      0 \<le> cid \<and> 0 \<le> pid \<and> 0 \<le> q \<and> map_of (products s) pid = Some p \<and> q > prod_quantity p \<longrightarrow>
      place_order s cid pid q =
        (Inr ''The quantity requested for this product is greater than the quantity in stock'',
         s)) \<and>
   (\<forall>s cid pid p.
      0 \<le> cid \<and> 0 \<le> pid \<and> map_of (products s) pid = Some p \<and> 0 \<le> prod_quantity p \<longrightarrow>
      fst (place_order s cid pid (prod_quantity p)) \<noteq>
        Inr ''The quantity requested for this product is greater than the quantity in stock'' \<and>
      fst (place_order s cid pid (prod_quantity p)) \<noteq>
        Inr ''The product does not exist in the system'') \<and>
   (\<forall>s cid pid p.
      reachable s \<and> 0 \<le> cid \<and> map_of (products s) pid = Some p \<and>
      float_mul_int (prod_price p) (prod_quantity p) \<noteq> Inl OverflowError \<longrightarrow>
      fst (place_order s cid pid (prod_quantity p)) =
        Inr ''The order has been accepted in the system'') \<and>
   place_order scenario_ordered 7 10 5 =
     (Inr ''The quantity requested for this product is greater than the quantity in stock'',
      scenario_ordered) \<and>
   map_of (products scenario_ordered) 10 =
     Some \<lparr>prod_id = 10, prod_name = ''Widget'', prod_price = Finite (5 / 2),
           prod_supplier_id = 1, prod_quantity = 1\<rparr>"
proof -
  have nr: "fst (place_order s cid pid (prod_quantity p)) \<noteq>
        Inr ''The quantity requested for this product is greater than the quantity in stock'' \<and>
      fst (place_order s cid pid (prod_quantity p)) \<noteq>
        Inr ''The product does not exist in the system''"
    if "0 \<le> cid \<and> 0 \<le> pid \<and> map_of (products s) pid = Some p \<and> 0 \<le> prod_quantity p"
    for s cid pid p
    using place_order_boundary_not_rejected[of cid pid s p] that
    by (simp add: msg_shortage_def msg_no_product_def)
  have boundary: "fst (place_order s cid pid (prod_quantity p)) =
        Inr ''The order has been accepted in the system''"
    if "reachable s \<and> 0 \<le> cid \<and> map_of (products s) pid = Some p \<and>
      float_mul_int (prod_price p) (prod_quantity p) \<noteq> Inl OverflowError" for s cid pid p
    using place_order_boundary_accepted[of s cid pid p] that by (simp add: msg_accepted_def)
  have sc: "place_order scenario_ordered 7 10 5 =
     (Inr ''The quantity requested for this product is greater than the quantity in stock'',
      scenario_ordered)"
    by code_simp
  show ?thesis
    apply (intro conjI allI impI)
          apply (simp add: place_order_missing msg_no_product_def)
         apply (simp add: place_order_short msg_shortage_def)
        apply (erule nr[THEN conjunct1])
       apply (erule nr[THEN conjunct2])
      apply (erule boundary)
     apply (rule sc)
    apply (simp add: scenario_ordered_eq)
    done
qed

theorem place_order_rejections_witness:
  "(0::int) \<le> 7 \<and> (0::int) \<le> 10 \<and> (0::int) \<le> 5 \<and>
   map_of (products scenario_ordered) 10 =
     Some \<lparr>prod_id = 10, prod_name = ''Widget'', prod_price = Finite (5 / 2),
           prod_supplier_id = 1, prod_quantity = 1\<rparr> \<and>
   map_of (products scenario_ordered) 11 = None \<and>
   reachable scenario_ordered \<and>
   float_mul_int (Finite (5 / 2)) 1 = Inr (Finite (5 / 2)) \<and>
   place_order scenario_ordered 7 11 5 =
     (Inr ''The product does not exist in the system'', scenario_ordered) \<and>
   place_order scenario_ordered 7 10 2 =
     (Inr ''The quantity requested for this product is greater than the quantity in stock'',
      scenario_ordered) \<and>
   fst (place_order scenario_ordered 7 10 1) \<noteq>
     Inr ''The quantity requested for this product is greater than the quantity in stock'' \<and>
   fst (place_order scenario_ordered 7 10 1) = Inr ''The order has been accepted in the system''"
proof -
  let ?P = "\<lparr>prod_id = 10, prod_name = ''Widget'', prod_price = Finite (5 / 2),
           prod_supplier_id = 1, prod_quantity = 1\<rparr>"
  have m: "map_of (products scenario_ordered) 10 = Some ?P"
    and n: "map_of (products scenario_ordered) 11 = None"
    by (simp_all add: scenario_ordered_eq)
  have f: "float_mul_int (Finite (5 / 2)) 1 = Inr (Finite (5 / 2))" by code_simp
  have h1: "(0::int) \<le> 7 \<and> (0::int) \<le> 11 \<and> (0::int) \<le> 5 \<and>
     map_of (products scenario_ordered) 11 = None"
    using n by simp
  have h2: "(0::int) \<le> 7 \<and> (0::int) \<le> 10 \<and> (0::int) \<le> 2 \<and>
     map_of (products scenario_ordered) 10 = Some ?P \<and> 2 > prod_quantity ?P"
    using m by simp
  have h3: "(0::int) \<le> 7 \<and> (0::int) \<le> 10 \<and>
     map_of (products scenario_ordered) 10 = Some ?P \<and> 0 \<le> prod_quantity ?P"
    using m by simp
  have h4: "reachable scenario_ordered \<and> (0::int) \<le> 7 \<and>
     map_of (products scenario_ordered) 10 = Some ?P \<and>
     float_mul_int (prod_price ?P) (prod_quantity ?P) \<noteq> Inl OverflowError"
    using m f reachable_scenario_ordered by simp
  note r = place_order_rejections
  from r[THEN conjunct1, rule_format, OF h1]
    r[THEN conjunct2, THEN conjunct1, rule_format, OF h2]
    r[THEN conjunct2, THEN conjunct2, THEN conjunct1, rule_format, OF h3]
    r[THEN conjunct2, THEN conjunct2, THEN conjunct2, THEN conjunct1, rule_format, OF h4]
    m n f reachable_scenario_ordered
  show ?thesis by simp
qed

section \<open>Placement does not consult the customer registry\<close>

lemma place_order_ignores_customers:
  "place_order (s\<lparr>customers := cs\<rparr>) cid pid q =
     (fst (place_order s cid pid q), (snd (place_order s cid pid q))\<lparr>customers := cs\<rparr>)"
  by (simp add: place_order_def Let_def split: option.splits sum.splits)

lemma place_order_accept_stored:
  assumes "reachable s" "0 \<le> cid" "map_of (products s) pid = Some p" "0 \<le> q"
    "q \<le> prod_quantity p" "float_mul_int (prod_price p) q = Inr t"
  shows "fst (place_order s cid pid q) = Inr msg_accepted \<and>
     map_of (orders (snd (place_order s cid pid q))) (next_order_id s) =
        Some \<lparr>ord_id = next_order_id s, ord_customer_id = cid, ord_product_id = pid,
              ord_quantity = q, ord_total_price = t\<rparr>"
  using next_id_fresh[OF reachable_wf[OF assms(1)]]
  by (simp add: place_order_accept_exact[OF assms] map_add_def msg_accepted_def)

lemma unregistered_customer_order:
  "reachable scenario_ordered \<and>
   map_of (orders scenario_ordered) 1 =
     Some \<lparr>ord_id = 1, ord_customer_id = 7, ord_product_id = 10,
           ord_quantity = 2, ord_total_price = Finite 5\<rparr> \<and>
   \<not> has_key (customers scenario_ordered) 7"
  using reachable_scenario_ordered by (simp add: scenario_ordered_eq has_key_def)

text \<open>
  C10. \<open>place_order\<close> never reads the customer registry (lemma
  \<open>place_order_ignores_customers\<close>), an in-stock placement is accepted for every
  non-negative customer id whenever the total can be computed (lemma
  \<open>place_order_accept_stored\<close>), and a reachable state holds an order of an unregistered
  customer (lemma \<open>unregistered_customer_order\<close>). The code falls short of the claim where
  it falls short of C1, by the same defect: for the unregistered customer 99 and
  \<open>2^1024\<close> units of product 10 in stock, \<open>place_order(99, 10, 2**1024)\<close> meets an existing
  product with sufficient stock, yet raises \<open>OverflowError\<close> after lowering the stock and
  advancing the counter, and creates no order.
\<close>

theorem place_order_unregistered_overflow:
  "reachable scenario_bulk \<and>
   \<not> has_key (customers scenario_bulk) 99 \<and>
   map_of (products scenario_bulk) 10 =
     Some \<lparr>prod_id = 10, prod_name = ''Widget'', prod_price = Finite (5 / 2),
           prod_supplier_id = 1, prod_quantity = 2 ^ 1024\<rparr> \<and>
   fst (place_order scenario_bulk 99 10 (2 ^ 1024)) = Inl OverflowError \<and>
   orders (snd (place_order scenario_bulk 99 10 (2 ^ 1024))) = [] \<and>
   next_order_id (snd (place_order scenario_bulk 99 10 (2 ^ 1024))) = 2 \<and>
   map_option prod_quantity
     (map_of (products (snd (place_order scenario_bulk 99 10 (2 ^ 1024)))) 10) = Some 0"
proof -
  have 1: "map_of (products scenario_bulk) 10 =
     Some \<lparr>prod_id = 10, prod_name = ''Widget'', prod_price = Finite (5 / 2),
           prod_supplier_id = 1, prod_quantity = 2 ^ 1024\<rparr>"
    and 2: "\<not> has_key (customers scenario_bulk) 99"
    by (simp_all add: scenario_bulk_eq has_key_def)
  have 3: "place_order scenario_bulk 99 10 (2 ^ 1024) =
     (Inl OverflowError,
      scenario_bulk\<lparr>products :=
          [(10, \<lparr>prod_id = 10, prod_name = ''Widget'', prod_price = Finite (5 / 2),
                 prod_supplier_id = 1, prod_quantity = 0\<rparr>)],
        next_order_id := 2\<rparr>)"
    by (rule place_order_bulk) simp
  have 4: "orders (snd (place_order scenario_bulk 99 10 (2 ^ 1024))) = []"
    by (simp only: 3) (simp add: scenario_bulk_eq)
  have 5: "next_order_id (snd (place_order scenario_bulk 99 10 (2 ^ 1024))) = 2"
    and 6: "map_option prod_quantity
     (map_of (products (snd (place_order scenario_bulk 99 10 (2 ^ 1024)))) 10) = Some 0"
    and 7: "fst (place_order scenario_bulk 99 10 (2 ^ 1024)) = Inl OverflowError"
    by (simp_all only: 3) simp_all
  from reachable_scenario_bulk 1 2 4 5 6 7 show ?thesis by blast
qed

section \<open>Registration\<close>

lemma register_entity_result:
  "0 \<le> ent_id e \<Longrightarrow>
   register_entity s e b =
     (if has_key (customers s) (ent_id e) \<or> has_key (suppliers s) (ent_id e)
      then (Inl InvalidIdException, s)
      else if b then (Inr (), s\<lparr>customers := customers s @ [(ent_id e, e)]\<rparr>)
      else (Inr (), s\<lparr>suppliers := suppliers s @ [(ent_id e, e)]\<rparr>))"
  by (simp add: register_entity_def valid_int_iff has_key_def update_new_key)

lemma reachable_disjoint:
  "reachable s \<Longrightarrow> \<not> (has_key (customers s) k \<and> has_key (suppliers s) k)"
  using reachable_wf[of s] unfolding wf_system_def entities_ok_def by blast

text \<open>
  C4. For every state and every entity with a valid id (as the constructors produce),
  \<open>register_entity\<close> fails with \<open>InvalidIdException\<close> exactly when the id is a key of the
  customer registry or of the supplier registry; a failure leaves the state unchanged; a
  success appends the entity to the selected registry and changes nothing else; and in
  every reachable state no id is a key of both registries.
\<close>

theorem register_entity_shared_namespace:
  "(\<forall>s e b. 0 \<le> ent_id e \<longrightarrow>
      (fst (register_entity s e b) = Inl InvalidIdException) =
        (has_key (customers s) (ent_id e) \<or> has_key (suppliers s) (ent_id e))) \<and>
   (\<forall>s e b. fst (register_entity s e b) = Inl InvalidIdException \<longrightarrow>
      snd (register_entity s e b) = s) \<and>
   (\<forall>s e b. fst (register_entity s e b) \<noteq> Inl InvalidIdException \<longrightarrow>
      register_entity s e b =
        (Inr (),
         if b then s\<lparr>customers := customers s @ [(ent_id e, e)]\<rparr>
         else s\<lparr>suppliers := suppliers s @ [(ent_id e, e)]\<rparr>)) \<and>
   (\<forall>s k. reachable s \<longrightarrow> \<not> (has_key (customers s) k \<and> has_key (suppliers s) k))"
proof (intro conjI allI impI)
  fix s :: system and e :: entity and b :: bool
  assume "0 \<le> ent_id e"
  then show "(fst (register_entity s e b) = Inl InvalidIdException) =
        (has_key (customers s) (ent_id e) \<or> has_key (suppliers s) (ent_id e))"
    by (simp add: register_entity_result)
next
  fix s :: system and e :: entity and b :: bool
  assume "fst (register_entity s e b) = Inl InvalidIdException"
  then show "snd (register_entity s e b) = s"
    by (auto simp: register_entity_def split: if_splits)
next
  fix s :: system and e :: entity and b :: bool
  assume "fst (register_entity s e b) \<noteq> Inl InvalidIdException"
  then show "register_entity s e b =
        (Inr (),
         if b then s\<lparr>customers := customers s @ [(ent_id e, e)]\<rparr>
         else s\<lparr>suppliers := suppliers s @ [(ent_id e, e)]\<rparr>)"
    by (auto simp: register_entity_def has_key_def update_new_key split: if_splits)
next
  fix s :: system and k :: int
  assume "reachable s"
  then show "\<not> (has_key (customers s) k \<and> has_key (suppliers s) k)"
    by (rule reachable_disjoint)
qed

theorem register_entity_shared_namespace_witness:
  "(0::int) \<le> ent_id \<lparr>ent_id = 1, ent_name = ''Bob'', ent_city = ''LA'', ent_address = ''Main St''\<rparr> \<and>
   has_key (suppliers scenario_stocked) 1 \<and> \<not> has_key (customers scenario_stocked) 1 \<and>
   register_entity scenario_stocked
     \<lparr>ent_id = 1, ent_name = ''Bob'', ent_city = ''LA'', ent_address = ''Main St''\<rparr> True =
     (Inl InvalidIdException, scenario_stocked) \<and>
   register_entity scenario_stocked
     \<lparr>ent_id = 2, ent_name = ''Bob'', ent_city = ''LA'', ent_address = ''Main St''\<rparr> True =
     (Inr (),
      scenario_stocked\<lparr>customers :=
        [(2, \<lparr>ent_id = 2, ent_name = ''Bob'', ent_city = ''LA'', ent_address = ''Main St''\<rparr>)]\<rparr>) \<and>
   reachable scenario_stocked"
proof -
  let ?e1 = "\<lparr>ent_id = 1, ent_name = ''Bob'', ent_city = ''LA'', ent_address = ''Main St''\<rparr>"
  let ?e2 = "\<lparr>ent_id = 2, ent_name = ''Bob'', ent_city = ''LA'', ent_address = ''Main St''\<rparr>"
  note t = register_entity_shared_namespace
  have k: "has_key (suppliers scenario_stocked) 1" "\<not> has_key (customers scenario_stocked) 1"
    "\<not> has_key (suppliers scenario_stocked) 2" "\<not> has_key (customers scenario_stocked) 2"
    "customers scenario_stocked = []"
    by (simp_all add: scenario_stocked_eq has_key_def)
  have h1: "0 \<le> ent_id ?e1" and h2: "0 \<le> ent_id ?e2" by simp_all
  have f1: "fst (register_entity scenario_stocked ?e1 True) = Inl InvalidIdException"
    using t[THEN conjunct1, rule_format, OF h1, of scenario_stocked True] k by simp
  have u1: "snd (register_entity scenario_stocked ?e1 True) = scenario_stocked"
    using t[THEN conjunct2, THEN conjunct1, rule_format, OF f1] .
  have f2: "fst (register_entity scenario_stocked ?e2 True) \<noteq> Inl InvalidIdException"
    using t[THEN conjunct1, rule_format, OF h2, of scenario_stocked True] k by simp
  have u2: "register_entity scenario_stocked ?e2 True =
     (Inr (), scenario_stocked\<lparr>customers := [(2, ?e2)]\<rparr>)"
    using t[THEN conjunct2, THEN conjunct2, THEN conjunct1, rule_format, OF f2] k by simp
  have d: "\<not> (has_key (customers scenario_stocked) 1 \<and> has_key (suppliers scenario_stocked) 1)"
    using t[THEN conjunct2, THEN conjunct2, THEN conjunct2, rule_format,
        OF reachable_scenario_stocked] .
  have e1: "register_entity scenario_stocked ?e1 True = (Inl InvalidIdException, scenario_stocked)"
    using f1 u1 by (simp add: prod_eq_iff)
  from h1 k e1 u2 reachable_scenario_stocked show ?thesis by simp
qed

section \<open>Removing an order\<close>

lemma supplier_has_orders_iff:
  "supplier_has_orders ps i xs =
     (\<exists>x \<in> set xs. \<exists>p. map_of ps (ord_product_id x) = Some p \<and> prod_supplier_id p = i)"
  by (induction xs) (auto split: option.splits)

lemma strip_lower_supplier: "lower (strip ''supplier'') = ''supplier''"
  by code_simp

lemma strip_lower_order: "lower (strip ''order'') = ''order''"
  by code_simp

text \<open>
  C5. For every state, \<open>remove_object(id, "order")\<close> fails with \<open>InvalidIdException\<close> and
  changes nothing when the order id is absent. When the order is present (under a valid
  id, as every stored order of a reachable state is), it returns the order's quantity,
  deletes the order, and adds exactly that quantity to the stock of the referenced
  product if the product still exists; if the product is gone only the order is deleted.
\<close>

theorem remove_order_restores_stock:
  "(\<forall>s i. map_of (orders s) i = None \<longrightarrow>
      remove_object s i ''order'' = (Inl InvalidIdException, s)) \<and>
   (\<forall>s i x. 0 \<le> i \<and> map_of (orders s) i = Some x \<longrightarrow>
      remove_object s i ''order'' =
        (Inr (Some (ord_quantity x)),
         case map_of (products s) (ord_product_id x) of
           None \<Rightarrow> s\<lparr>orders := AList.delete i (orders s)\<rparr>
         | Some p \<Rightarrow>
             s\<lparr>orders := AList.delete i (orders s),
               products :=
                 AList.update (ord_product_id x)
                   (p\<lparr>prod_quantity := prod_quantity p + ord_quantity x\<rparr>) (products s)\<rparr>) \<and>
      map_of (AList.delete i (orders s)) i = None) \<and>
   (\<forall>s i x. reachable s \<and> map_of (orders s) i = Some x \<longrightarrow> 0 \<le> i)"
proof (intro conjI allI impI)
  fix s :: system and i :: int
  assume "map_of (orders s) i = None"
  then show "remove_object s i ''order'' = (Inl InvalidIdException, s)"
    by (cases "i < 0")
      (simp_all add: remove_object_invalid remove_object_order strip_lower_order)
next
  fix s :: system and i :: int and x :: order
  assume "0 \<le> i \<and> map_of (orders s) i = Some x"
  then show "remove_object s i ''order'' =
        (Inr (Some (ord_quantity x)),
         case map_of (products s) (ord_product_id x) of
           None \<Rightarrow> s\<lparr>orders := AList.delete i (orders s)\<rparr>
         | Some p \<Rightarrow>
             s\<lparr>orders := AList.delete i (orders s),
               products :=
                 AList.update (ord_product_id x)
                   (p\<lparr>prod_quantity := prod_quantity p + ord_quantity x\<rparr>) (products s)\<rparr>)"
    by (simp add: remove_object_order strip_lower_order order_removed_state_def)
next
  fix s :: system and i :: int and x :: order
  show "map_of (AList.delete i (orders s)) i = None"
    by (simp add: delete_conv')
next
  fix s :: system and i :: int and x :: order
  assume "reachable s \<and> map_of (orders s) i = Some x"
  then have "wf_system s" "map_of (orders s) i = Some x" by (simp_all add: reachable_wf)
  then have "1 \<le> i" unfolding wf_system_def orders_ok_def by blast
  then show "0 \<le> i" by simp
qed

theorem remove_order_restores_stock_witness:
  "map_of (orders scenario_ordered) 5 = None \<and>
   (0::int) \<le> 1 \<and>
   map_of (orders scenario_ordered) 1 =
     Some \<lparr>ord_id = 1, ord_customer_id = 7, ord_product_id = 10,
           ord_quantity = 2, ord_total_price = Finite 5\<rparr> \<and>
   reachable scenario_ordered \<and>
   remove_object scenario_ordered 5 ''order'' = (Inl InvalidIdException, scenario_ordered) \<and>
   remove_object scenario_ordered 1 ''order'' = (Inr (Some 2), scenario_stocked\<lparr>next_order_id := 2\<rparr>)"
proof -
  let ?x = "\<lparr>ord_id = 1, ord_customer_id = 7, ord_product_id = 10,
           ord_quantity = 2, ord_total_price = Finite 5\<rparr>"
  note t = remove_order_restores_stock
  have a: "map_of (orders scenario_ordered) 5 = None"
    and b: "map_of (orders scenario_ordered) 1 = Some ?x"
    by (simp_all add: scenario_ordered_eq)
  have h2: "(0::int) \<le> 1 \<and> map_of (orders scenario_ordered) 1 = Some ?x"
    using b by simp
  have h3: "reachable scenario_ordered \<and> map_of (orders scenario_ordered) 1 = Some ?x"
    using b reachable_scenario_ordered by simp
  have r1: "remove_object scenario_ordered 5 ''order'' = (Inl InvalidIdException, scenario_ordered)"
    using t[THEN conjunct1, rule_format, OF a] .
  have r2: "remove_object scenario_ordered 1 ''order'' =
      (Inr (Some 2), scenario_stocked\<lparr>next_order_id := 2\<rparr>)"
    using t[THEN conjunct2, THEN conjunct1, rule_format, OF h2, THEN conjunct1]
    by (simp add: scenario_ordered_eq scenario_stocked_eq)
  have r3: "(0::int) \<le> 1"
    using t[THEN conjunct2, THEN conjunct2, rule_format, OF h3] .
  from a b r1 r2 r3 reachable_scenario_ordered show ?thesis by simp
qed

section \<open>Removing a supplier\<close>

text \<open>
  C6. For every state, \<open>remove_object(id, "supplier")\<close> fails with \<open>InvalidIdException\<close> and
  returns the state unchanged when the supplier id is absent, or when some stored order
  references a product, looked up in the current product table, whose supplier id is
  this id. Otherwise (the id being valid, as every stored supplier id of a reachable
  state is) the supplier is deleted and nothing else changes. In the scenario, removing
  supplier 1 while order 1 references its product 10 fails and changes nothing.
\<close>

theorem remove_supplier_integrity:
  "(\<forall>s i.
      \<not> has_key (suppliers s) i \<or>
      (\<exists>x \<in> set (map snd (orders s)). \<exists>p.
          map_of (products s) (ord_product_id x) = Some p \<and> prod_supplier_id p = i) \<longrightarrow>
      remove_object s i ''supplier'' = (Inl InvalidIdException, s)) \<and>
   (\<forall>s i.
      0 \<le> i \<and> has_key (suppliers s) i \<and>
      \<not> (\<exists>x \<in> set (map snd (orders s)). \<exists>p.
          map_of (products s) (ord_product_id x) = Some p \<and> prod_supplier_id p = i) \<longrightarrow>
      remove_object s i ''supplier'' =
        (Inr None, s\<lparr>suppliers := AList.delete i (suppliers s)\<rparr>) \<and>
      \<not> has_key (AList.delete i (suppliers s)) i) \<and>
   (\<forall>s i. reachable s \<and> has_key (suppliers s) i \<longrightarrow> 0 \<le> i) \<and>
   remove_object scenario_ordered 1 ''supplier'' = (Inl InvalidIdException, scenario_ordered)"
proof (intro conjI allI impI)
  fix s :: system and i :: int
  assume "\<not> has_key (suppliers s) i \<or>
      (\<exists>x \<in> set (map snd (orders s)). \<exists>p.
          map_of (products s) (ord_product_id x) = Some p \<and> prod_supplier_id p = i)"
  then have "\<not> has_key (suppliers s) i \<or> supplier_has_orders (products s) i (map snd (orders s))"
    by (simp only: supplier_has_orders_iff)
  then show "remove_object s i ''supplier'' = (Inl InvalidIdException, s)"
    by (cases "i < 0")
      (auto simp: remove_object_invalid remove_object_supplier strip_lower_supplier)
next
  fix s :: system and i :: int
  assume "0 \<le> i \<and> has_key (suppliers s) i \<and>
      \<not> (\<exists>x \<in> set (map snd (orders s)). \<exists>p.
          map_of (products s) (ord_product_id x) = Some p \<and> prod_supplier_id p = i)"
  then have "0 \<le> i" "has_key (suppliers s) i"
    "\<not> supplier_has_orders (products s) i (map snd (orders s))"
    by (simp_all only: supplier_has_orders_iff not_False_eq_True)
  then show "remove_object s i ''supplier'' =
        (Inr None, s\<lparr>suppliers := AList.delete i (suppliers s)\<rparr>)"
    by (simp add: remove_object_supplier strip_lower_supplier)
next
  fix s :: system and i :: int
  show "\<not> has_key (AList.delete i (suppliers s)) i"
    by (simp add: has_key_def delete_conv')
next
  fix s :: system and i :: int
  assume "reachable s \<and> has_key (suppliers s) i"
  then have "wf_system s" "\<exists>e. map_of (suppliers s) i = Some e"
    by (auto simp: reachable_wf has_key_def)
  then show "0 \<le> i" unfolding wf_system_def entities_ok_def by blast
next
  show "remove_object scenario_ordered 1 ''supplier'' = (Inl InvalidIdException, scenario_ordered)"
    by code_simp
qed

lemma scenario_supplier_removed_eq:
  "scenario_supplier_removed =
     \<lparr>customers = [], suppliers = [],
      products = [(10, \<lparr>prod_id = 10, prod_name = ''Widget'', prod_price = Finite (5 / 2),
                        prod_supplier_id = 1, prod_quantity = 3\<rparr>)],
      orders = [], next_order_id = 1\<rparr>"
  by code_simp

lemma reachable_scenario_supplier_removed: "reachable scenario_supplier_removed"
  unfolding scenario_supplier_removed_def by (rule reachable_run)

theorem remove_supplier_integrity_witness:
  "has_key (suppliers scenario_ordered) 1 \<and>
   (\<exists>x \<in> set (map snd (orders scenario_ordered)). \<exists>p.
       map_of (products scenario_ordered) (ord_product_id x) = Some p \<and> prod_supplier_id p = 1) \<and>
   remove_object scenario_ordered 1 ''supplier'' = (Inl InvalidIdException, scenario_ordered) \<and>
   (0::int) \<le> 1 \<and> has_key (suppliers scenario_stocked) 1 \<and>
   \<not> (\<exists>x \<in> set (map snd (orders scenario_stocked)). \<exists>p.
       map_of (products scenario_stocked) (ord_product_id x) = Some p \<and> prod_supplier_id p = 1) \<and>
   remove_object scenario_stocked 1 ''supplier'' = (Inr None, scenario_supplier_removed) \<and>
   reachable scenario_stocked"
proof -
  note t = remove_supplier_integrity
  have k: "has_key (suppliers scenario_ordered) 1"
    and r: "\<exists>x \<in> set (map snd (orders scenario_ordered)). \<exists>p.
       map_of (products scenario_ordered) (ord_product_id x) = Some p \<and> prod_supplier_id p = 1"
    by (simp_all add: scenario_ordered_eq has_key_def)
  have k': "has_key (suppliers scenario_stocked) 1"
    and r': "\<not> (\<exists>x \<in> set (map snd (orders scenario_stocked)). \<exists>p.
       map_of (products scenario_stocked) (ord_product_id x) = Some p \<and> prod_supplier_id p = 1)"
    by (simp_all add: scenario_stocked_eq has_key_def)
  have f: "remove_object scenario_ordered 1 ''supplier'' =
      (Inl InvalidIdException, scenario_ordered)"
    using t[THEN conjunct1, rule_format, of scenario_ordered 1] r by blast
  have h2: "(0::int) \<le> 1 \<and> has_key (suppliers scenario_stocked) 1 \<and>
   \<not> (\<exists>x \<in> set (map snd (orders scenario_stocked)). \<exists>p.
       map_of (products scenario_stocked) (ord_product_id x) = Some p \<and> prod_supplier_id p = 1)"
    using k' r' by simp
  have g: "remove_object scenario_stocked 1 ''supplier'' = (Inr None, scenario_supplier_removed)"
    using t[THEN conjunct2, THEN conjunct1, rule_format, OF h2, THEN conjunct1]
    by (simp add: scenario_stocked_eq scenario_supplier_removed_eq)
  have z: "(0::int) \<le> 1"
    using t[THEN conjunct2, THEN conjunct2, THEN conjunct1, rule_format,
        of scenario_stocked 1] k' reachable_scenario_stocked by blast
  from k r f z k' r' g reachable_scenario_stocked show ?thesis by blast
qed

section \<open>Catalog upsert\<close>

text \<open>
  C3, as stated, fails: after supplier 1 has been removed (no order referenced its
  product 10, so the removal went through), product 10 is still in the catalog with
  supplier id 1, and an upsert of product 10 carrying the same supplier id raises
  \<open>InvalidIdException\<close> and overwrites nothing.
\<close>

theorem upsert_same_supplier_counterexample:
  "reachable scenario_supplier_removed \<and>
   map_of (products scenario_supplier_removed) 10 =
     Some \<lparr>prod_id = 10, prod_name = ''Widget'', prod_price = Finite (5 / 2),
           prod_supplier_id = 1, prod_quantity = 3\<rparr> \<and>
   Product 10 ''Gadget'' (FloatV (Finite 4)) 1 9 =
     Inr \<lparr>prod_id = 10, prod_name = ''Gadget'', prod_price = Finite 4,
          prod_supplier_id = 1, prod_quantity = 9\<rparr> \<and>
   add_or_update_product scenario_supplier_removed
     \<lparr>prod_id = 10, prod_name = ''Gadget'', prod_price = Finite 4,
      prod_supplier_id = 1, prod_quantity = 9\<rparr> =
     (Inl InvalidIdException, scenario_supplier_removed)"
proof -
  have "Product 10 ''Gadget'' (FloatV (Finite 4)) 1 9 =
     Inr \<lparr>prod_id = 10, prod_name = ''Gadget'', prod_price = Finite 4,
          prod_supplier_id = 1, prod_quantity = 9\<rparr>"
    by (simp add: Product_def valid_int_iff valid_price_iff number_lt_zero_def float_lt_def
        float_val_def to_float_def)
  moreover have "add_or_update_product scenario_supplier_removed
     \<lparr>prod_id = 10, prod_name = ''Gadget'', prod_price = Finite 4,
      prod_supplier_id = 1, prod_quantity = 9\<rparr> =
     (Inl InvalidIdException, scenario_supplier_removed)"
    by (simp add: scenario_supplier_removed_eq add_or_update_product_def has_key_def)
  ultimately show ?thesis
    using reachable_scenario_supplier_removed
    by (simp add: scenario_supplier_removed_eq[symmetric])
      (simp add: scenario_supplier_removed_eq)
qed

lemma upsert_step_keeps:
  assumes "map_of (products s) k = Some ex"
  shows "\<exists>ex'. map_of (products (snd (add_or_update_product s p))) k = Some ex' \<and>
     prod_supplier_id ex' = prod_supplier_id ex \<and> prod_id ex' = prod_id ex"
  using assms
  by (auto simp: add_or_update_product_def update_conv' split: option.splits)

lemma upserts_keep:
  "map_of (products s) k = Some ex \<Longrightarrow>
   \<exists>ex'. map_of (products (foldl (\<lambda>t p. snd (add_or_update_product t p)) s ps)) k = Some ex' \<and>
     prod_supplier_id ex' = prod_supplier_id ex \<and> prod_id ex' = prod_id ex"
proof (induction ps arbitrary: s ex)
  case Nil
  then show ?case by simp
next
  case (Cons p ps)
  from upsert_step_keeps[OF Cons.prems, of p] obtain ex1 where
    1: "map_of (products (snd (add_or_update_product s p))) k = Some ex1"
    and 2: "prod_supplier_id ex1 = prod_supplier_id ex" "prod_id ex1 = prod_id ex"
    by blast
  from Cons.IH[OF 1] 2 show ?case by simp
qed

text \<open>
  C3, amended. For every product in the catalog, its id and supplier id are the same
  after any number of \<open>add_or_update_product\<close> calls. An upsert of an existing product id
  with a different supplier id fails with \<open>InvalidIdException\<close> and leaves the state
  unchanged. An upsert with the same supplier id, when that supplier is still
  registered, overwrites name, price and quantity of the stored product where it stands
  and nothing else; when that supplier is no longer registered it fails with
  \<open>InvalidIdException\<close> and leaves the state unchanged.
\<close>

theorem upsert_keeps_supplier_id:
  "(\<forall>s ps k ex.
      map_of (products s) k = Some ex \<longrightarrow>
      (\<exists>ex'. map_of (products (foldl (\<lambda>t p. snd (add_or_update_product t p)) s ps)) k = Some ex' \<and>
         prod_supplier_id ex' = prod_supplier_id ex \<and> prod_id ex' = prod_id ex)) \<and>
   (\<forall>s p ex.
      map_of (products s) (prod_id p) = Some ex \<and> prod_supplier_id p \<noteq> prod_supplier_id ex \<longrightarrow>
      add_or_update_product s p = (Inl InvalidIdException, s)) \<and>
   (\<forall>s p ex.
      map_of (products s) (prod_id p) = Some ex \<and> prod_supplier_id p = prod_supplier_id ex \<and>
      has_key (suppliers s) (prod_supplier_id p) \<longrightarrow>
      add_or_update_product s p =
        (Inr (),
         s\<lparr>products :=
             AList.update (prod_id p)
               (ex\<lparr>prod_name := prod_name p, prod_price := prod_price p,
                   prod_quantity := prod_quantity p\<rparr>) (products s)\<rparr>)) \<and>
   (\<forall>s p ex.
      map_of (products s) (prod_id p) = Some ex \<and> prod_supplier_id p = prod_supplier_id ex \<and>
      \<not> has_key (suppliers s) (prod_supplier_id p) \<longrightarrow>
      add_or_update_product s p = (Inl InvalidIdException, s))"
proof (intro conjI allI impI)
  fix s :: system and ps :: "product list" and k :: int and ex :: product
  assume "map_of (products s) k = Some ex"
  then show "\<exists>ex'. map_of (products (foldl (\<lambda>t p. snd (add_or_update_product t p)) s ps)) k = Some ex' \<and>
         prod_supplier_id ex' = prod_supplier_id ex \<and> prod_id ex' = prod_id ex"
    by (rule upserts_keep)
next
  fix s :: system and p :: product and ex :: product
  assume "map_of (products s) (prod_id p) = Some ex \<and> prod_supplier_id p \<noteq> prod_supplier_id ex"
  then show "add_or_update_product s p = (Inl InvalidIdException, s)"
    by (auto simp: add_or_update_product_def)
next
  fix s :: system and p :: product and ex :: product
  assume "map_of (products s) (prod_id p) = Some ex \<and> prod_supplier_id p = prod_supplier_id ex \<and>
      has_key (suppliers s) (prod_supplier_id p)"
  then show "add_or_update_product s p =
        (Inr (),
         s\<lparr>products :=
             AList.update (prod_id p)
               (ex\<lparr>prod_name := prod_name p, prod_price := prod_price p,
                   prod_quantity := prod_quantity p\<rparr>) (products s)\<rparr>)"
    by (auto simp: add_or_update_product_def)
next
  fix s :: system and p :: product and ex :: product
  assume "map_of (products s) (prod_id p) = Some ex \<and> prod_supplier_id p = prod_supplier_id ex \<and>
      \<not> has_key (suppliers s) (prod_supplier_id p)"
  then show "add_or_update_product s p = (Inl InvalidIdException, s)"
    by (auto simp: add_or_update_product_def)
qed

theorem upsert_keeps_supplier_id_witness:
  "map_of (products scenario_stocked) 10 =
     Some \<lparr>prod_id = 10, prod_name = ''Widget'', prod_price = Finite (5 / 2),
           prod_supplier_id = 1, prod_quantity = 3\<rparr> \<and>
   has_key (suppliers scenario_stocked) 1 \<and>
   add_or_update_product scenario_stocked
     \<lparr>prod_id = 10, prod_name = ''Gadget'', prod_price = Finite 4,
      prod_supplier_id = 1, prod_quantity = 9\<rparr> =
     (Inr (),
      scenario_stocked\<lparr>products :=
        [(10, \<lparr>prod_id = 10, prod_name = ''Gadget'', prod_price = Finite 4,
               prod_supplier_id = 1, prod_quantity = 9\<rparr>)]\<rparr>) \<and>
   add_or_update_product scenario_stocked
     \<lparr>prod_id = 10, prod_name = ''Gadget'', prod_price = Finite 4,
      prod_supplier_id = 2, prod_quantity = 9\<rparr> =
     (Inl InvalidIdException, scenario_stocked) \<and>
   \<not> has_key (suppliers scenario_supplier_removed) 1 \<and>
   add_or_update_product scenario_supplier_removed
     \<lparr>prod_id = 10, prod_name = ''Gadget'', prod_price = Finite 4,
      prod_supplier_id = 1, prod_quantity = 9\<rparr> =
     (Inl InvalidIdException, scenario_supplier_removed) \<and>
   (\<exists>ex'. map_of (products (foldl (\<lambda>t p. snd (add_or_update_product t p)) scenario_stocked
        [\<lparr>prod_id = 10, prod_name = ''Gadget'', prod_price = Finite 4,
          prod_supplier_id = 1, prod_quantity = 9\<rparr>,
         \<lparr>prod_id = 10, prod_name = ''Gadget'', prod_price = Finite 4,
          prod_supplier_id = 2, prod_quantity = 9\<rparr>])) 10 = Some ex' \<and>
      prod_supplier_id ex' = 1 \<and> prod_id ex' = 10)"
proof -
  let ?W = "\<lparr>prod_id = 10, prod_name = ''Widget'', prod_price = Finite (5 / 2),
           prod_supplier_id = 1, prod_quantity = 3\<rparr>"
  let ?G1 = "\<lparr>prod_id = 10, prod_name = ''Gadget'', prod_price = Finite 4,
      prod_supplier_id = 1, prod_quantity = 9\<rparr>"
  let ?G2 = "\<lparr>prod_id = 10, prod_name = ''Gadget'', prod_price = Finite 4,
      prod_supplier_id = 2, prod_quantity = 9\<rparr>"
  note t = upsert_keeps_supplier_id
  have m: "map_of (products scenario_stocked) 10 = Some ?W"
    and k: "has_key (suppliers scenario_stocked) 1"
    and m': "map_of (products scenario_supplier_removed) 10 = Some ?W"
    and k': "\<not> has_key (suppliers scenario_supplier_removed) 1"
    by (simp_all add: scenario_stocked_eq scenario_supplier_removed_eq has_key_def)
  have a: "\<exists>ex'. map_of (products (foldl (\<lambda>t p. snd (add_or_update_product t p)) scenario_stocked
        [?G1, ?G2])) 10 = Some ex' \<and> prod_supplier_id ex' = 1 \<and> prod_id ex' = 10"
    using t[THEN conjunct1, rule_format, OF m, of "[?G1, ?G2]"] by simp
  have h2: "map_of (products scenario_stocked) (prod_id ?G2) = Some ?W \<and>
      prod_supplier_id ?G2 \<noteq> prod_supplier_id ?W"
    using m by simp
  have b: "add_or_update_product scenario_stocked ?G2 = (Inl InvalidIdException, scenario_stocked)"
    using t[THEN conjunct2, THEN conjunct1, rule_format, OF h2] .
  have h3: "map_of (products scenario_stocked) (prod_id ?G1) = Some ?W \<and>
      prod_supplier_id ?G1 = prod_supplier_id ?W \<and>
      has_key (suppliers scenario_stocked) (prod_supplier_id ?G1)"
    using m k by simp
  have c: "add_or_update_product scenario_stocked ?G1 =
      (Inr (), scenario_stocked\<lparr>products := [(10, ?G1)]\<rparr>)"
    using t[THEN conjunct2, THEN conjunct2, THEN conjunct1, rule_format, OF h3]
    by (simp add: scenario_stocked_eq)
  have h4: "map_of (products scenario_supplier_removed) (prod_id ?G1) = Some ?W \<and>
      prod_supplier_id ?G1 = prod_supplier_id ?W \<and>
      \<not> has_key (suppliers scenario_supplier_removed) (prod_supplier_id ?G1)"
    using m' k' by simp
  have d: "add_or_update_product scenario_supplier_removed ?G1 =
      (Inl InvalidIdException, scenario_supplier_removed)"
    using t[THEN conjunct2, THEN conjunct2, THEN conjunct2, rule_format, OF h4] .
  from m k a b c d k' show ?thesis by blast
qed

section \<open>The order id sequence\<close>

lemma exec_next_id:
  assumes "wf_system s"
  shows "next_order_id s + (if accepts s c then 1 else 0) \<le> next_order_id (exec s c)"
proof (cases c)
  case (Register i n ci a b)
  then show ?thesis
    by (simp add: accepts_def register_entity_def split: sum.splits)
next
  case (AddOrUpdate i n p sid q)
  then show ?thesis
    by (simp add: accepts_def add_or_update_product_def split: sum.splits option.splits)
next
  case (PlaceOrder cid pid q)
  from assms have "products_ok s" "1 \<le> next_order_id s" by (simp_all add: wf_system_def)
  from place_order_cases[OF this, of cid pid q] PlaceOrder show ?thesis
    by (auto simp: accepts_def accepted_state_def consumed_state_def)
next
  case (RemoveObject i ct)
  from remove_object_cases[of s i ct] RemoveObject show ?thesis
    by (auto simp: accepts_def order_removed_state_def split: option.splits)
qed

lemma exec_next_id_mono: "wf_system s \<Longrightarrow> next_order_id s \<le> next_order_id (exec s c)"
  using exec_next_id[of s c] by (simp split: if_splits)

lemma foldl_next_id:
  "wf_system s \<Longrightarrow>
   next_order_id s + int (count_accepted s cs) \<le> next_order_id (foldl exec s cs)"
proof (induction cs arbitrary: s)
  case Nil
  then show ?case by simp
next
  case (Cons c cs)
  from Cons.IH[OF wf_exec[OF Cons.prems], of c] exec_next_id[OF Cons.prems, of c]
  show ?case by (simp split: if_splits)
qed

lemma remove_object_next_id: "next_order_id (snd (remove_object s i ct)) = next_order_id s"
  using remove_object_cases[of s i ct]
  by (auto simp: order_removed_state_def split: option.splits)

lemma exec_consumed_absent:
  assumes "wf_system s" "k < next_order_id s" "map_of (orders s) k = None"
  shows "map_of (orders (exec s c)) k = None"
proof (cases c)
  case (Register i n ci a b)
  then show ?thesis using assms(3)
    by (simp add: register_entity_def split: sum.splits)
next
  case (AddOrUpdate i n p sid q)
  then show ?thesis using assms(3)
    by (simp add: add_or_update_product_def split: sum.splits option.splits)
next
  case (PlaceOrder cid pid q)
  from assms have "products_ok s" "1 \<le> next_order_id s" by (simp_all add: wf_system_def)
  from place_order_cases[OF this, of cid pid q] PlaceOrder assms(2,3) show ?thesis
    by (auto simp: accepted_state_def consumed_state_def update_conv')
next
  case (RemoveObject i ct)
  from remove_object_cases[of s i ct] RemoveObject assms(3) show ?thesis
    by (auto simp: order_removed_state_def delete_conv' split: option.splits)
qed

lemma foldl_consumed_absent:
  "wf_system s \<Longrightarrow> k < next_order_id s \<Longrightarrow> map_of (orders s) k = None \<Longrightarrow>
   map_of (orders (foldl exec s cs)) k = None"
proof (induction cs arbitrary: s)
  case Nil
  then show ?case by simp
next
  case (Cons c cs)
  have "k < next_order_id (exec s c)"
    using Cons.prems(2) exec_next_id_mono[OF Cons.prems(1), of c] by simp
  with Cons show ?case by (simp add: wf_exec exec_consumed_absent)
qed

lemma place_order_accepted_effect:
  assumes "reachable s" "fst (place_order s cid pid q) = Inr msg_accepted"
  shows "\<exists>x. orders (snd (place_order s cid pid q)) = orders s @ [(next_order_id s, x)] \<and>
           ord_id x = next_order_id s \<and>
           next_order_id (snd (place_order s cid pid q)) = next_order_id s + 1"
proof -
  from assms(1) have wf: "wf_system s" by (rule reachable_wf)
  then have "products_ok s" "1 \<le> next_order_id s" by (simp_all add: wf_system_def)
  from place_order_cases[OF this, of cid pid q] assms(2)
  obtain p t where
    "place_order s cid pid q = (Inr msg_accepted, accepted_state s cid pid q p t)"
    by auto
  then show ?thesis
    by (simp add: accepted_state_def update_new_key[OF next_id_fresh[OF wf]])
qed

lemma reachable_orders_ok:
  assumes "reachable s" "map_of (orders s) k = Some x"
  shows "ord_id x = k \<and> 1 \<le> k \<and> k < next_order_id s"
  using reachable_wf[OF assms(1)] assms(2) unfolding wf_system_def orders_ok_def by blast

text \<open>
  C8. The counter starts at 1, and after any run it is at least 1 plus the number of
  accepted placements of that run (a placement that raises after the stock check also
  advances it). An accepted placement in a reachable state appends its order
  under the current counter value, with that value as the order's id, and advances the
  counter by one. In every reachable state each stored order sits under its own id,
  which is at least 1 and below the counter. No command lowers the counter, and
  \<open>remove_object\<close> leaves it as it is. Hence an id below the counter that is not in the
  registry (a removed order's id) is never in the registry again, whatever commands follow.
\<close>

theorem order_ids_sequential:
  "next_order_id MatamazonSystem = 1 \<and>
   (\<forall>cs. 1 + int (count_accepted MatamazonSystem cs) \<le> next_order_id (run cs)) \<and>
   (\<forall>s cid pid q.
      reachable s \<and> fst (place_order s cid pid q) = Inr msg_accepted \<longrightarrow>
      (\<exists>x. orders (snd (place_order s cid pid q)) = orders s @ [(next_order_id s, x)] \<and>
           ord_id x = next_order_id s \<and>
           next_order_id (snd (place_order s cid pid q)) = next_order_id s + 1)) \<and>
   (\<forall>s k x. reachable s \<and> map_of (orders s) k = Some x \<longrightarrow>
      ord_id x = k \<and> 1 \<le> k \<and> k < next_order_id s) \<and>
   (\<forall>s c. reachable s \<longrightarrow> next_order_id s \<le> next_order_id (exec s c)) \<and>
   (\<forall>s i ct. next_order_id (snd (remove_object s i ct)) = next_order_id s) \<and>
   (\<forall>s cs k.
      reachable s \<and> k < next_order_id s \<and> map_of (orders s) k = None \<longrightarrow>
      map_of (orders (foldl exec s cs)) k = None)"
proof -
  have 1: "next_order_id MatamazonSystem = 1" by (simp add: MatamazonSystem_def)
  have 2: "1 + int (count_accepted MatamazonSystem cs) \<le> next_order_id (run cs)" for cs
    using foldl_next_id[OF wf_init, of cs] 1 by (simp add: run_def)
  have 5: "next_order_id s \<le> next_order_id (exec s c)" if "reachable s" for s c
    using that by (simp add: exec_next_id_mono reachable_wf)
  have 7: "map_of (orders (foldl exec s cs)) k = None"
    if "reachable s \<and> k < next_order_id s \<and> map_of (orders s) k = None" for s cs k
    using that by (simp add: foldl_consumed_absent reachable_wf)
  show ?thesis
    apply (intro conjI)
          apply (rule 1)
         apply (simp add: 2)
        apply (blast intro: place_order_accepted_effect)
       apply (blast dest: reachable_orders_ok)
      apply (simp add: 5)
     apply (simp add: remove_object_next_id)
    apply (blast intro: 7)
    done
qed

lemma scenario_order_removed_eq:
  "scenario_order_removed =
     \<lparr>customers = [],
      suppliers = [(1, \<lparr>ent_id = 1, ent_name = ''Acme'', ent_city = ''NYC'',
                        ent_address = ''5th Ave''\<rparr>)],
      products = [(10, \<lparr>prod_id = 10, prod_name = ''Widget'', prod_price = Finite (5 / 2),
                        prod_supplier_id = 1, prod_quantity = 3\<rparr>)],
      orders = [], next_order_id = 2\<rparr>"
  by code_simp

lemma reachable_scenario_order_removed: "reachable scenario_order_removed"
  unfolding scenario_order_removed_def by (rule reachable_run)

theorem order_ids_sequential_witness:
  "reachable scenario_order_removed \<and> (1::int) < next_order_id scenario_order_removed \<and>
   map_of (orders scenario_order_removed) 1 = None \<and>
   fst (place_order scenario_order_removed 8 10 1) = Inr msg_accepted \<and>
   map_of (orders (foldl exec scenario_order_removed [PlaceOrder 8 10 1])) 1 = None \<and>
   (\<exists>x. orders (snd (place_order scenario_order_removed 8 10 1)) =
          orders scenario_order_removed @ [(2, x)] \<and> ord_id x = 2 \<and>
          next_order_id (snd (place_order scenario_order_removed 8 10 1)) = 3) \<and>
   reachable scenario_ordered \<and>
   map_of (orders scenario_ordered) 1 =
     Some \<lparr>ord_id = 1, ord_customer_id = 7, ord_product_id = 10,
           ord_quantity = 2, ord_total_price = Finite 5\<rparr> \<and>
   (1::int) < next_order_id scenario_ordered \<and>
   next_order_id scenario_ordered \<le> next_order_id (exec scenario_ordered (RemoveObject 1 ''order''))"
proof -
  note t = order_ids_sequential
  let ?x = "\<lparr>ord_id = 1, ord_customer_id = 7, ord_product_id = 10,
           ord_quantity = 2, ord_total_price = Finite 5\<rparr>"
  have n: "next_order_id scenario_order_removed = 2"
    and a: "map_of (orders scenario_order_removed) 1 = None"
    and m: "map_of (orders scenario_ordered) 1 = Some ?x"
    by (simp_all add: scenario_order_removed_eq scenario_ordered_eq)
  have acc: "fst (place_order scenario_order_removed 8 10 1) = Inr msg_accepted"
    by code_simp
  have h7: "reachable scenario_order_removed \<and> 1 < next_order_id scenario_order_removed \<and>
      map_of (orders scenario_order_removed) 1 = None"
    using n a reachable_scenario_order_removed by simp
  have r7: "map_of (orders (foldl exec scenario_order_removed [PlaceOrder 8 10 1])) 1 = None"
    using t[THEN conjunct2, THEN conjunct2, THEN conjunct2, THEN conjunct2, THEN conjunct2,
        THEN conjunct2, rule_format, OF h7] .
  have h3: "reachable scenario_order_removed \<and>
      fst (place_order scenario_order_removed 8 10 1) = Inr msg_accepted"
    using acc reachable_scenario_order_removed by simp
  have r3: "\<exists>x. orders (snd (place_order scenario_order_removed 8 10 1)) =
          orders scenario_order_removed @ [(2, x)] \<and> ord_id x = 2 \<and>
          next_order_id (snd (place_order scenario_order_removed 8 10 1)) = 3"
    using t[THEN conjunct2, THEN conjunct2, THEN conjunct1, rule_format, OF h3] n by simp
  have h4: "reachable scenario_ordered \<and> map_of (orders scenario_ordered) 1 = Some ?x"
    using m reachable_scenario_ordered by simp
  have r4: "(1::int) < next_order_id scenario_ordered"
    using t[THEN conjunct2, THEN conjunct2, THEN conjunct2, THEN conjunct1, rule_format, OF h4]
    by simp
  have r5: "next_order_id scenario_ordered \<le>
      next_order_id (exec scenario_ordered (RemoveObject 1 ''order''))"
    using t[THEN conjunct2, THEN conjunct2, THEN conjunct2, THEN conjunct2, THEN conjunct1,
        rule_format, OF reachable_scenario_ordered] .
  from h7 acc r7 r3 h4 r4 r5 show ?thesis by blast
qed

section \<open>Search\<close>

lemma str_contains_iff: "str_contains name query = (\<exists>u v. name = u @ query @ v)"
proof (induction name)
  case Nil
  show ?case by auto
next
  case (Cons c cs)
  show ?case
  proof
    assume "str_contains (c # cs) query"
    then consider "prefix query (c # cs)" | "str_contains cs query" by auto
    then show "\<exists>u v. c # cs = u @ query @ v"
    proof cases
      case 1
      then obtain v where "c # cs = query @ v" by (auto simp: prefix_def)
      then have "c # cs = [] @ query @ v" by simp
      then show ?thesis by blast
    next
      case 2
      with Cons.IH obtain u v where "cs = u @ query @ v" by blast
      then have "c # cs = (c # u) @ query @ v" by simp
      then show ?thesis by blast
    qed
  next
    assume "\<exists>u v. c # cs = u @ query @ v"
    then obtain u v where uv: "c # cs = u @ query @ v" by blast
    show "str_contains (c # cs) query"
    proof (cases u)
      case Nil
      with uv have "prefix query (c # cs)" by (simp add: prefix_def)
      then show ?thesis by simp
    next
      case (Cons d u')
      with uv have "cs = u' @ query @ v" by simp
      with Cons.IH have "str_contains cs query" by blast
      then show ?thesis by simp
    qed
  qed
qed

lemma search_fold_filter:
  "foldl (search_step query max_price) res ps =
     res @ filter (\<lambda>p. prod_quantity p \<noteq> 0 \<and> str_contains (prod_name p) query \<and>
                        (case max_price of None \<Rightarrow> True
                         | Some m \<Rightarrow> \<not> float_gt_number (prod_price p) m)) ps"
  by (induction ps arbitrary: res) (auto simp: search_step_def split: option.splits)

text \<open>
  \<open>__lt__\<close> is irreflexive, asymmetric and transitive on all products; it compares any
  two products with different ids only when neither price is NaN.
\<close>

lemma float_lt_irrefl: "\<not> float_lt a a"
  by (cases a) (simp_all add: float_lt_def)

lemma float_lt_asym: "float_lt a b \<Longrightarrow> \<not> float_lt b a"
  by (cases a; cases b) (auto simp: float_lt_def float_val_def split: if_splits)

lemma float_lt_trans: "float_lt a b \<Longrightarrow> float_lt b c \<Longrightarrow> float_lt a c"
  by (cases a; cases b; cases c) (auto simp: float_lt_def float_val_def split: if_splits)

lemma float_lt_ne: "float_lt a b \<Longrightarrow> float_ne a b"
  by (cases a; cases b) (auto simp: float_lt_def float_ne_def float_eq_def float_val_def
      split: if_splits)

lemma float_ne_sym: "float_ne a b = float_ne b a"
  by (cases a; cases b) (auto simp: float_ne_def float_eq_def)

lemma float_ne_lt: "a \<noteq> NaN \<Longrightarrow> b \<noteq> NaN \<Longrightarrow> float_ne a b \<Longrightarrow> float_lt a b \<or> float_lt b a"
  by (cases a; cases b) (auto simp: float_lt_def float_ne_def float_eq_def float_val_def)

lemma float_eq_lt_left: "\<not> float_ne a b \<Longrightarrow> float_lt a c = float_lt b c"
  by (cases a; cases b; cases c)
    (auto simp: float_lt_def float_ne_def float_eq_def float_val_def split: if_splits)

lemma float_eq_lt_right: "\<not> float_ne a b \<Longrightarrow> float_lt c a = float_lt c b"
  by (cases a; cases b; cases c)
    (auto simp: float_lt_def float_ne_def float_eq_def float_val_def split: if_splits)

lemma float_eq_trans: "\<not> float_ne a b \<Longrightarrow> \<not> float_ne b c \<Longrightarrow> \<not> float_ne a c"
  by (cases a; cases b; cases c) (auto simp: float_ne_def float_eq_def split: if_splits)

lemma Product_lt_irrefl: "\<not> Product_lt p p"
  by (simp add: Product_lt_def float_lt_irrefl)

lemma Product_lt_asym: "Product_lt a b \<Longrightarrow> \<not> Product_lt b a"
  using float_lt_asym[of "prod_price a" "prod_price b"]
    float_ne_sym[of "prod_price a" "prod_price b"]
  by (auto simp: Product_lt_def split: if_splits)

lemma Product_lt_trans:
  assumes "Product_lt a b" "Product_lt b c"
  shows "Product_lt a c"
proof (cases "float_ne (prod_price a) (prod_price b)")
  case ab: True
  with assms(1) have lab: "float_lt (prod_price a) (prod_price b)" by (simp add: Product_lt_def)
  show ?thesis
  proof (cases "float_ne (prod_price b) (prod_price c)")
    case True
    with assms(2) have "float_lt (prod_price b) (prod_price c)" by (simp add: Product_lt_def)
    with lab have l: "float_lt (prod_price a) (prod_price c)" by (rule float_lt_trans)
    then show ?thesis by (simp add: Product_lt_def float_lt_ne)
  next
    case False
    with lab have l: "float_lt (prod_price a) (prod_price c)"
      by (simp add: float_eq_lt_right)
    then show ?thesis by (simp add: Product_lt_def float_lt_ne)
  qed
next
  case ab: False
  with assms(1) have iab: "prod_id a < prod_id b" by (simp add: Product_lt_def)
  show ?thesis
  proof (cases "float_ne (prod_price b) (prod_price c)")
    case True
    with assms(2) have "float_lt (prod_price b) (prod_price c)" by (simp add: Product_lt_def)
    with ab have l: "float_lt (prod_price a) (prod_price c)"
      by (simp add: float_eq_lt_left)
    then show ?thesis by (simp add: Product_lt_def float_lt_ne)
  next
    case False
    with assms(2) have "prod_id b < prod_id c" by (simp add: Product_lt_def)
    with iab float_eq_trans[OF ab False] show ?thesis by (simp add: Product_lt_def)
  qed
qed

lemma Product_lt_total:
  "prod_id a \<noteq> prod_id b \<Longrightarrow> prod_price a \<noteq> NaN \<Longrightarrow> prod_price b \<noteq> NaN \<Longrightarrow>
   Product_lt a b \<or> Product_lt b a"
  using float_ne_lt[of "prod_price a" "prod_price b"]
    float_ne_sym[of "prod_price a" "prod_price b"]
  by (auto simp: Product_lt_def)

lemma mset_insort_lt: "mset (insort_lt x ys) = {#x#} + mset ys"
  by (induction ys) auto

lemma set_insort_lt: "set (insort_lt x ys) = insert x (set ys)"
  by (induction ys) auto

lemma sorted_insort_lt:
  "sorted_wrt Product_lt ys \<Longrightarrow> \<forall>y \<in> set ys. prod_id y \<noteq> prod_id x \<Longrightarrow>
   \<forall>y \<in> insert x (set ys). prod_price y \<noteq> NaN \<Longrightarrow>
   sorted_wrt Product_lt (insort_lt x ys)"
proof (induction ys)
  case Nil
  then show ?case by simp
next
  case (Cons y ys)
  show ?case
  proof (cases "Product_lt x y")
    case True
    with Cons.prems(1) have "\<forall>z \<in> set ys. Product_lt x z"
      by (auto intro: Product_lt_trans)
    with True Cons.prems(1) show ?thesis by simp
  next
    case False
    with Cons.prems(2,3) have "Product_lt y x"
      using Product_lt_total[of x y] by auto
    with False Cons show ?thesis by (auto simp: set_insort_lt)
  qed
qed

lemma mset_sorted_fold: "mset (foldl (\<lambda>acc x. insort_lt x acc) acc xs) = mset acc + mset xs"
  by (induction xs arbitrary: acc) (simp_all add: mset_insort_lt)

lemma sorted_sorted_fold:
  "sorted_wrt Product_lt acc \<Longrightarrow> distinct (map prod_id (acc @ xs)) \<Longrightarrow>
   \<forall>y \<in> set (acc @ xs). prod_price y \<noteq> NaN \<Longrightarrow>
   sorted_wrt Product_lt (foldl (\<lambda>acc x. insort_lt x acc) acc xs)"
proof (induction xs arbitrary: acc)
  case Nil
  then show ?case by simp
next
  case (Cons x xs)
  from Cons.prems(2) have "prod_id x \<notin> prod_id ` set acc" by auto
  then have "\<forall>y \<in> set acc. prod_id y \<noteq> prod_id x" by (metis imageI)
  moreover from Cons.prems(3) have "\<forall>y \<in> insert x (set acc). prod_price y \<noteq> NaN" by simp
  ultimately have 1: "sorted_wrt Product_lt (insort_lt x acc)"
    using Cons.prems(1) by (intro sorted_insort_lt)
  have "mset (map prod_id (insort_lt x acc @ xs)) = mset (map prod_id (acc @ x # xs))"
    by (simp add: mset_insort_lt)
  with Cons.prems(2) have 2: "distinct (map prod_id (insort_lt x acc @ xs))"
    using mset_eq_imp_distinct_iff by blast
  from Cons.prems(3) have 3: "\<forall>y \<in> set (insort_lt x acc @ xs). prod_price y \<noteq> NaN"
    by (simp add: set_insort_lt)
  from Cons.IH[OF 1 2 3] show ?case by simp
qed

lemma sorted_wrt_Product_lt_unique:
  "sorted_wrt Product_lt xs \<Longrightarrow> sorted_wrt Product_lt ys \<Longrightarrow> set xs = set ys \<Longrightarrow> xs = ys"
proof (induction xs arbitrary: ys)
  case Nil
  then show ?case by simp
next
  case (Cons x xs)
  from Cons.prems(3) obtain y ys' where ys: "ys = y # ys'" by (cases ys) auto
  from Cons.prems(1) have xmin: "\<forall>z \<in> set xs. Product_lt x z" by simp
  from Cons.prems(2) ys have ymin: "\<forall>z \<in> set ys'. Product_lt y z" by simp
  have xy: "x = y"
  proof (rule ccontr)
    assume ne: "x \<noteq> y"
    from Cons.prems(3) ys have "x \<in> set (y # ys')" "y \<in> set (x # xs)" by auto
    with ne have "x \<in> set ys'" "y \<in> set xs" by auto
    with xmin ymin have "Product_lt x y" "Product_lt y x" by auto
    then show False by (simp add: Product_lt_asym)
  qed
  from xmin have "x \<notin> set xs" using Product_lt_irrefl by blast
  moreover from ymin xy have "x \<notin> set ys'" using Product_lt_irrefl by blast
  ultimately have "set xs = set ys'" using Cons.prems(3) ys xy by auto
  moreover from Cons.prems(1) have "sorted_wrt Product_lt xs" by simp
  moreover from Cons.prems(2) ys have "sorted_wrt Product_lt ys'" by simp
  ultimately have "xs = ys'" by (intro Cons.IH)
  with xy ys show ?case by simp
qed

lemma wf_product_ids:
  assumes "wf_system s"
  shows "map prod_id (map snd (products s)) = map fst (products s)"
proof -
  from assms have d: "distinct (map fst (products s))" and ok: "products_ok s"
    by (simp_all add: wf_system_def keys_distinct_def)
  have "prod_id (snd kp) = fst kp" if "kp \<in> set (products s)" for kp
  proof -
    from that have "(fst kp, snd kp) \<in> set (products s)" by simp
    with d have "map_of (products s) (fst kp) = Some (snd kp)"
      by (simp only: map_of_eq_Some_iff)
    with ok show ?thesis unfolding products_ok_def by blast
  qed
  then show ?thesis by simp
qed

lemma wf_product_ids_distinct:
  "wf_system s \<Longrightarrow> distinct (map prod_id (map snd (products s)))"
  by (simp only: wf_product_ids) (simp add: wf_system_def keys_distinct_def)

lemma wf_stock_nonneg:
  assumes "wf_system s" "p \<in> snd ` set (products s)"
  shows "0 \<le> prod_quantity p"
proof -
  from assms(2) obtain k where kp: "(k, p) \<in> set (products s)" by force
  from assms(1) have d: "distinct (map fst (products s))" and ok: "products_ok s"
    by (simp_all add: wf_system_def keys_distinct_def)
  from kp d have "map_of (products s) k = Some p" by simp
  with ok show ?thesis unfolding products_ok_def by blast
qed

lemma search_products_mset:
  "mset (search_products s query max_price) =
     mset (filter (\<lambda>p. prod_quantity p \<noteq> 0 \<and> str_contains (prod_name p) query \<and>
                        (case max_price of None \<Rightarrow> True
                         | Some m \<Rightarrow> \<not> float_gt_number (prod_price p) m))
            (map snd (products s)))"
  by (simp add: search_products_def sorted_py_def mset_sorted_fold search_fold_filter)

lemma search_products_sorted:
  assumes "wf_system s" "nan_free s"
  shows "sorted_wrt Product_lt (search_products s query max_price)"
proof -
  let ?f = "filter (\<lambda>p. prod_quantity p \<noteq> 0 \<and> str_contains (prod_name p) query \<and>
                        (case max_price of None \<Rightarrow> True
                         | Some m \<Rightarrow> \<not> float_gt_number (prod_price p) m))
            (map snd (products s))"
  have "distinct (map prod_id ?f)"
    using wf_product_ids_distinct[OF assms(1)] by (simp add: distinct_map_filter)
  moreover have "\<forall>y \<in> set ?f. prod_price y \<noteq> NaN"
    using assms(2) by (auto simp: nan_free_def)
  ultimately have "sorted_wrt Product_lt (foldl (\<lambda>acc x. insort_lt x acc) [] ?f)"
    by (intro sorted_sorted_fold) simp_all
  then show ?thesis by (simp add: search_products_def sorted_py_def search_fold_filter)
qed

lemma search_products_set:
  assumes "wf_system s"
  shows "set (search_products s query max_price) =
     {p \<in> snd ` set (products s).
        0 < prod_quantity p \<and> (\<exists>u v. prod_name p = u @ query @ v) \<and>
        (case max_price of None \<Rightarrow> True | Some m \<Rightarrow> \<not> float_gt_number (prod_price p) m)}"
proof -
  have "set (search_products s query max_price) =
      set_mset (mset (search_products s query max_price))" by simp
  also have "\<dots> = {p \<in> snd ` set (products s).
        prod_quantity p \<noteq> 0 \<and> str_contains (prod_name p) query \<and>
        (case max_price of None \<Rightarrow> True | Some m \<Rightarrow> \<not> float_gt_number (prod_price p) m)}"
    by (simp only: search_products_mset) auto
  also have "\<dots> = {p \<in> snd ` set (products s).
        0 < prod_quantity p \<and> (\<exists>u v. prod_name p = u @ query @ v) \<and>
        (case max_price of None \<Rightarrow> True | Some m \<Rightarrow> \<not> float_gt_number (prod_price p) m)}"
    using wf_stock_nonneg[OF assms] by (auto simp: str_contains_iff order_less_le)
  finally show ?thesis .
qed

lemma sorted_wrt_Product_lt_distinct: "sorted_wrt Product_lt xs \<Longrightarrow> distinct xs"
  by (induction xs) (auto simp: Product_lt_irrefl)

lemma search_products_order_independent:
  assumes "wf_system s" "wf_system s'" "nan_free s" "set (products s) = set (products s')"
  shows "search_products s query max_price = search_products s' query max_price"
proof -
  from assms(3,4) have n: "nan_free s'" by (simp add: nan_free_def)
  have "set (search_products s query max_price) = set (search_products s' query max_price)"
    by (simp add: search_products_set assms)
  with search_products_sorted[OF assms(1,3)] search_products_sorted[OF assms(2) n]
  show ?thesis by (intro sorted_wrt_Product_lt_unique)
qed

lemma search_products_empty:
  assumes "wf_system s"
    "\<forall>p \<in> snd ` set (products s). (\<exists>u v. prod_name p = u @ query @ v) \<longrightarrow> prod_quantity p = 0"
  shows "search_products s query max_price = []"
proof -
  from assms(2) have "set (search_products s query max_price) = {}"
    by (simp only: search_products_set[OF assms(1)]) fastforce
  then show ?thesis by simp
qed

text \<open>
  When no stored price is NaN the search does what C7 says: in every reachable state
  the result holds, each once, the in-stock products whose name contains the query and
  whose price does not exceed the maximum, strictly ascending by \<open>__lt__\<close>, whatever the
  order of the registry.
\<close>

lemma search_products_without_nan:
  assumes "reachable s" "nan_free s"
  shows "set (search_products s query max_price) =
        {p \<in> snd ` set (products s).
           0 < prod_quantity p \<and> (\<exists>u v. prod_name p = u @ query @ v) \<and>
           (case max_price of None \<Rightarrow> True
            | Some m \<Rightarrow> \<not> float_gt_number (prod_price p) m)} \<and>
      distinct (search_products s query max_price) \<and>
      sorted_wrt Product_lt (search_products s query max_price) \<and>
      (\<forall>s'. reachable s' \<and> set (products s') = set (products s) \<longrightarrow>
         search_products s' query max_price = search_products s query max_price)"
proof -
  from assms(1) have wf: "wf_system s" by (rule reachable_wf)
  have "search_products s' query max_price = search_products s query max_price"
    if "reachable s' \<and> set (products s') = set (products s)" for s'
    using search_products_order_independent[OF wf reachable_wf assms(2), of s'] that
    by simp
  with search_products_set[OF wf] search_products_sorted[OF wf assms(2)]
    sorted_wrt_Product_lt_distinct[OF search_products_sorted[OF wf assms(2)]]
  show ?thesis by blast
qed

lemma scenario_catalog_eq:
  "scenario_catalog =
     \<lparr>customers = [],
      suppliers = [(1, \<lparr>ent_id = 1, ent_name = ''Acme'', ent_city = ''NYC'',
                        ent_address = ''5th Ave''\<rparr>)],
      products =
        [(10, \<lparr>prod_id = 10, prod_name = ''Widget'', prod_price = Finite (5 / 2),
               prod_supplier_id = 1, prod_quantity = 3\<rparr>),
         (11, \<lparr>prod_id = 11, prod_name = ''Widget Pro'', prod_price = Finite (5 / 2),
               prod_supplier_id = 1, prod_quantity = 4\<rparr>),
         (12, \<lparr>prod_id = 12, prod_name = ''Wide Widget'', prod_price = Finite 1,
               prod_supplier_id = 1, prod_quantity = 5\<rparr>),
         (13, \<lparr>prod_id = 13, prod_name = ''Widget Zero'', prod_price = Finite 1,
               prod_supplier_id = 1, prod_quantity = 0\<rparr>)],
      orders = [], next_order_id = 1\<rparr>"
  by code_simp

lemma scenario_catalog_reordered_eq:
  "scenario_catalog_reordered =
     \<lparr>customers = [],
      suppliers = [(1, \<lparr>ent_id = 1, ent_name = ''Acme'', ent_city = ''NYC'',
                        ent_address = ''5th Ave''\<rparr>)],
      products =
        [(13, \<lparr>prod_id = 13, prod_name = ''Widget Zero'', prod_price = Finite 1,
               prod_supplier_id = 1, prod_quantity = 0\<rparr>),
         (12, \<lparr>prod_id = 12, prod_name = ''Wide Widget'', prod_price = Finite 1,
               prod_supplier_id = 1, prod_quantity = 5\<rparr>),
         (11, \<lparr>prod_id = 11, prod_name = ''Widget Pro'', prod_price = Finite (5 / 2),
               prod_supplier_id = 1, prod_quantity = 4\<rparr>),
         (10, \<lparr>prod_id = 10, prod_name = ''Widget'', prod_price = Finite (5 / 2),
               prod_supplier_id = 1, prod_quantity = 3\<rparr>)],
      orders = [], next_order_id = 1\<rparr>"
  by code_simp

lemma reachable_scenario_catalog: "reachable scenario_catalog"
  unfolding scenario_catalog_def by (rule reachable_run)

lemma reachable_scenario_catalog_reordered: "reachable scenario_catalog_reordered"
  unfolding scenario_catalog_reordered_def by (rule reachable_run)

lemma search_catalog_Wid:
  "search_products scenario_catalog ''Wid'' None =
     [\<lparr>prod_id = 12, prod_name = ''Wide Widget'', prod_price = Finite 1,
       prod_supplier_id = 1, prod_quantity = 5\<rparr>,
      \<lparr>prod_id = 10, prod_name = ''Widget'', prod_price = Finite (5 / 2),
       prod_supplier_id = 1, prod_quantity = 3\<rparr>,
      \<lparr>prod_id = 11, prod_name = ''Widget Pro'', prod_price = Finite (5 / 2),
       prod_supplier_id = 1, prod_quantity = 4\<rparr>]"
  by code_simp

lemma search_catalog_Wid_capped:
  "search_products scenario_catalog ''Wid'' (Some (FloatV (Finite 2))) =
     [\<lparr>prod_id = 12, prod_name = ''Wide Widget'', prod_price = Finite 1,
       prod_supplier_id = 1, prod_quantity = 5\<rparr>]"
  by code_simp

lemma scenario_nan_eq:
  "scenario_nan =
     \<lparr>customers = [],
      suppliers = [(1, \<lparr>ent_id = 1, ent_name = ''Acme'', ent_city = ''NYC'',
                        ent_address = ''5th Ave''\<rparr>)],
      products =
        [(10, \<lparr>prod_id = 10, prod_name = ''Widget'', prod_price = NaN,
               prod_supplier_id = 1, prod_quantity = 3\<rparr>),
         (11, \<lparr>prod_id = 11, prod_name = ''Widget Pro'', prod_price = Finite 1,
               prod_supplier_id = 1, prod_quantity = 4\<rparr>)],
      orders = [], next_order_id = 1\<rparr>"
  by code_simp

lemma scenario_nan_reordered_eq:
  "scenario_nan_reordered =
     \<lparr>customers = [],
      suppliers = [(1, \<lparr>ent_id = 1, ent_name = ''Acme'', ent_city = ''NYC'',
                        ent_address = ''5th Ave''\<rparr>)],
      products =
        [(11, \<lparr>prod_id = 11, prod_name = ''Widget Pro'', prod_price = Finite 1,
               prod_supplier_id = 1, prod_quantity = 4\<rparr>),
         (10, \<lparr>prod_id = 10, prod_name = ''Widget'', prod_price = NaN,
               prod_supplier_id = 1, prod_quantity = 3\<rparr>)],
      orders = [], next_order_id = 1\<rparr>"
  by code_simp

lemma reachable_scenario_nan: "reachable scenario_nan"
  unfolding scenario_nan_def by (rule reachable_run)

lemma reachable_scenario_nan_reordered: "reachable scenario_nan_reordered"
  unfolding scenario_nan_reordered_def by (rule reachable_run)

text \<open>
  C7. The code falls short of the claim when a stored price is NaN, which
  \<open>validate_nonnegative_price\<close> lets through (\<open>nan < 0\<close> is false) although NaN is not a
  non-negative price; without NaN prices the claim holds (lemma
  \<open>search_products_without_nan\<close>). After \<open>add 10 Widget nan 1 3\<close> and
  \<open>add 11 Widget_Pro 1.0 1 4\<close>, \<open>search_products("Wid", 2.0)\<close> returns product 10, whose
  price is not at most 2.0, in front of product 11; with the two products added in the
  opposite order it returns product 11 in front of product 10. So the result is not
  ascending (\<open>__lt__\<close> holds in neither direction) and it follows the registry order,
  against the comment of \<open>__lt__\<close> that the order is ascending and deterministic.
\<close>

theorem search_products_nan_order_dependent:
  "reachable scenario_nan \<and> reachable scenario_nan_reordered \<and>
   set (products scenario_nan) = set (products scenario_nan_reordered) \<and>
   search_products scenario_nan ''Wid'' (Some (FloatV (Finite 2))) =
     [\<lparr>prod_id = 10, prod_name = ''Widget'', prod_price = NaN,
       prod_supplier_id = 1, prod_quantity = 3\<rparr>,
      \<lparr>prod_id = 11, prod_name = ''Widget Pro'', prod_price = Finite 1,
       prod_supplier_id = 1, prod_quantity = 4\<rparr>] \<and>
   search_products scenario_nan_reordered ''Wid'' (Some (FloatV (Finite 2))) =
     [\<lparr>prod_id = 11, prod_name = ''Widget Pro'', prod_price = Finite 1,
       prod_supplier_id = 1, prod_quantity = 4\<rparr>,
      \<lparr>prod_id = 10, prod_name = ''Widget'', prod_price = NaN,
       prod_supplier_id = 1, prod_quantity = 3\<rparr>] \<and>
   \<not> Product_lt
       \<lparr>prod_id = 10, prod_name = ''Widget'', prod_price = NaN,
        prod_supplier_id = 1, prod_quantity = 3\<rparr>
       \<lparr>prod_id = 11, prod_name = ''Widget Pro'', prod_price = Finite 1,
        prod_supplier_id = 1, prod_quantity = 4\<rparr> \<and>
   \<not> Product_lt
       \<lparr>prod_id = 11, prod_name = ''Widget Pro'', prod_price = Finite 1,
        prod_supplier_id = 1, prod_quantity = 4\<rparr>
       \<lparr>prod_id = 10, prod_name = ''Widget'', prod_price = NaN,
        prod_supplier_id = 1, prod_quantity = 3\<rparr> \<and>
   \<not> float_lt NaN (Finite 2) \<and> \<not> float_eq NaN (Finite 2)"
proof -
  have 1: "set (products scenario_nan) = set (products scenario_nan_reordered)"
    by (simp add: scenario_nan_eq scenario_nan_reordered_eq) blast
  have 2: "search_products scenario_nan ''Wid'' (Some (FloatV (Finite 2))) =
     [\<lparr>prod_id = 10, prod_name = ''Widget'', prod_price = NaN,
       prod_supplier_id = 1, prod_quantity = 3\<rparr>,
      \<lparr>prod_id = 11, prod_name = ''Widget Pro'', prod_price = Finite 1,
       prod_supplier_id = 1, prod_quantity = 4\<rparr>]"
    by code_simp
  have 3: "search_products scenario_nan_reordered ''Wid'' (Some (FloatV (Finite 2))) =
     [\<lparr>prod_id = 11, prod_name = ''Widget Pro'', prod_price = Finite 1,
       prod_supplier_id = 1, prod_quantity = 4\<rparr>,
      \<lparr>prod_id = 10, prod_name = ''Widget'', prod_price = NaN,
       prod_supplier_id = 1, prod_quantity = 3\<rparr>]"
    by code_simp
  have 4: "\<not> Product_lt
       \<lparr>prod_id = 10, prod_name = ''Widget'', prod_price = NaN,
        prod_supplier_id = 1, prod_quantity = 3\<rparr>
       \<lparr>prod_id = 11, prod_name = ''Widget Pro'', prod_price = Finite 1,
        prod_supplier_id = 1, prod_quantity = 4\<rparr>"
    and 5: "\<not> Product_lt
       \<lparr>prod_id = 11, prod_name = ''Widget Pro'', prod_price = Finite 1,
        prod_supplier_id = 1, prod_quantity = 4\<rparr>
       \<lparr>prod_id = 10, prod_name = ''Widget'', prod_price = NaN,
        prod_supplier_id = 1, prod_quantity = 3\<rparr>"
    and 6: "\<not> float_lt NaN (Finite 2)" "\<not> float_eq NaN (Finite 2)"
    by (simp_all add: Product_lt_def float_ne_def float_eq_def float_lt_def)
  from reachable_scenario_nan reachable_scenario_nan_reordered 1 2 3 4 5 6
  show ?thesis by blast
qed

section \<open>Order export\<close>

lemma export_step_skip:
  "order_city s x = None \<Longrightarrow> export_step float_str s grouped x = grouped"
  by (simp add: order_city_def export_step_def split: option.splits)

lemma has_key_iff: "has_key d k = (k \<in> fst ` set d)"
  by (simp add: has_key_def map_of_eq_None_iff)

lemma export_step_group:
  assumes "order_city s x = Some c"
  shows "export_step float_str s grouped x =
     (if has_key grouped c
      then AList.update c
             ((case map_of grouped c of None \<Rightarrow> [] | Some l \<Rightarrow> l) @ [Order_repr float_str x])
             grouped
      else AList.update c [Order_repr float_str x] (AList.update c [] grouped))"
proof -
  from assms obtain p supp where
    "map_of (products s) (ord_product_id x) = Some p"
    "map_of (suppliers s) (prod_supplier_id p) = Some supp" "ent_city supp = c"
    by (auto simp: order_city_def split: option.splits)
  then show ?thesis
    by (simp add: export_step_def Let_def update_conv')
qed

lemma export_step_keys:
  assumes "order_city s x = Some c"
  shows "map fst (export_step float_str s grouped x) =
     (if c \<in> set (map fst grouped) then map fst grouped else map fst grouped @ [c])"
proof (cases "has_key grouped c")
  case True
  then have "c \<in> set (map fst grouped)" by (simp add: has_key_iff)
  with True show ?thesis by (simp add: export_step_group[OF assms] update_keys)
next
  case False
  then have "c \<notin> set (map fst grouped)" by (simp add: has_key_iff)
  with False show ?thesis by (simp add: export_step_group[OF assms] update_keys)
qed

lemma export_step_lookup:
  assumes "order_city s x = Some c"
  shows "map_of (export_step float_str s grouped x) =
     (map_of grouped)(c \<mapsto>
        (case map_of grouped c of None \<Rightarrow> [] | Some l \<Rightarrow> l) @ [Order_repr float_str x])"
proof (cases "has_key grouped c")
  case True
  then show ?thesis by (simp add: export_step_group[OF assms] update_conv')
next
  case False
  then have "map_of grouped c = None" by (simp add: has_key_def)
  with False show ?thesis by (simp add: export_step_group[OF assms] update_conv')
qed

lemma map_filter_snoc:
  "List.map_filter f (xs @ [x]) =
     List.map_filter f xs @ (case f x of None \<Rightarrow> [] | Some y \<Rightarrow> [y])"
  by (induction xs) (auto split: option.splits)

lemma first_seen_snoc:
  "rev (remdups (rev (cs @ [c]))) =
     (if c \<in> set cs then rev (remdups (rev cs)) else rev (remdups (rev cs)) @ [c])"
  by simp

lemma export_fold_keys:
  "map fst (foldl (export_step float_str s) [] xs) =
     rev (remdups (rev (List.map_filter (order_city s) xs)))"
proof (induction xs rule: rev_induct)
  case Nil
  show ?case by simp
next
  case (snoc x xs)
  show ?case
  proof (cases "order_city s x")
    case None
    with snoc show ?thesis by (simp add: export_step_skip map_filter_snoc)
  next
    case (Some c)
    have "set (map fst (foldl (export_step float_str s) [] xs)) =
        set (List.map_filter (order_city s) xs)"
      by (simp only: snoc.IH) simp
    with Some snoc show ?thesis
      by (simp add: export_step_keys map_filter_snoc del: set_map)
  qed
qed

lemma export_fold_lookup:
  "map_of (foldl (export_step float_str s) [] xs) c =
     (if \<exists>x \<in> set xs. order_city s x = Some c
      then Some (map (Order_repr float_str) (filter (\<lambda>x. order_city s x = Some c) xs))
      else None)"
proof (induction xs rule: rev_induct)
  case Nil
  show ?case by simp
next
  case (snoc x xs)
  show ?case
  proof (cases "order_city s x")
    case None
    with snoc show ?thesis by (simp add: export_step_skip)
  next
    case (Some d)
    with snoc show ?thesis by (auto simp: export_step_lookup)
  qed
qed

lemma Order_repr_scenario:
  "Order_repr float_str
     \<lparr>ord_id = 1, ord_customer_id = 7, ord_product_id = 10, ord_quantity = 2,
      ord_total_price = Finite 5\<rparr> =
   ''Order(id=1, customer_id=7, product_id=10, quantity=2, total_price='' @ float_str (Finite 5) @ '')''"
  by (simp add: Order_repr_def str_int_def)

lemma str_float_integral_5: "str_float_integral (Finite 5) = ''5.0''"
  by (simp add: str_float_integral_def str_int_def float_val_def)

lemma export_single_order:
  assumes "orders s = [(k, x)]" "order_city s x = Some c"
  shows "export_orders float_str s = [(c, [Order_repr float_str x])]"
  using assms by (simp add: export_orders_def export_step_group has_key_def)

lemma order_city_scenario:
  "order_city scenario_ordered
     \<lparr>ord_id = 1, ord_customer_id = 7, ord_product_id = 10, ord_quantity = 2,
      ord_total_price = Finite 5\<rparr> = Some ''NYC''"
  by (simp add: order_city_def scenario_ordered_eq)

text \<open>
  C9. For every state, the mapping built by \<open>export_orders\<close> has as keys, without
  repetition and in first-seen order, the cities of the suppliers of the products of the
  stored orders, an order whose product or whose product's supplier is missing being
  skipped; under each city it holds the descriptions of exactly the orders of that city,
  in the iteration order of the order registry. With a single stored order the mapping
  has the one city with the one description; in the scenario (order 1 of customer 7 on
  product 10, quantity 2, total price 5.0, supplier city NYC), when the float 5.0 prints
  as \<open>5.0\<close>, the mapping is
  \<open>{"NYC": ["Order(id=1, customer_id=7, product_id=10, quantity=2, total_price=5.0)"]}\<close>.
\<close>

theorem export_orders_grouped_by_city:
  "(\<forall>float_str s.
      map fst (export_orders float_str s) =
        rev (remdups (rev (List.map_filter (order_city s) (map snd (orders s))))) \<and>
      distinct (map fst (export_orders float_str s))) \<and>
   (\<forall>float_str s c.
      map_of (export_orders float_str s) c =
        (if \<exists>x \<in> set (map snd (orders s)). order_city s x = Some c
         then Some (map (Order_repr float_str)
                      (filter (\<lambda>x. order_city s x = Some c) (map snd (orders s))))
         else None)) \<and>
   (\<forall>s x. order_city s x =
      (case map_of (products s) (ord_product_id x) of
         None \<Rightarrow> None
       | Some p \<Rightarrow> map_option ent_city (map_of (suppliers s) (prod_supplier_id p)))) \<and>
   (\<forall>float_str s k x c.
      orders s = [(k, x)] \<and> order_city s x = Some c \<longrightarrow>
      export_orders float_str s = [(c, [Order_repr float_str x])]) \<and>
   (\<forall>float_str.
      float_str (Finite 5) = ''5.0'' \<longrightarrow>
      export_orders float_str scenario_ordered =
        [(''NYC'',
          [''Order(id=1, customer_id=7, product_id=10, quantity=2, total_price=5.0)''])])"
proof -
  have 1: "map fst (export_orders float_str s) =
        rev (remdups (rev (List.map_filter (order_city s) (map snd (orders s)))))"
    for float_str s
    by (simp only: export_orders_def export_fold_keys)
  have 2: "distinct (map fst (export_orders float_str s))" for float_str s
    by (simp only: 1) simp
  have 3: "map_of (export_orders float_str s) c =
        (if \<exists>x \<in> set (map snd (orders s)). order_city s x = Some c
         then Some (map (Order_repr float_str)
                      (filter (\<lambda>x. order_city s x = Some c) (map snd (orders s))))
         else None)" for float_str s c
    by (simp only: export_orders_def export_fold_lookup)
  have 4: "order_city s x =
      (case map_of (products s) (ord_product_id x) of
         None \<Rightarrow> None
       | Some p \<Rightarrow> map_option ent_city (map_of (suppliers s) (prod_supplier_id p)))" for s x
    by (simp add: order_city_def split: option.splits)
  have 5: "export_orders float_str scenario_ordered =
        [(''NYC'',
          [''Order(id=1, customer_id=7, product_id=10, quantity=2, total_price=5.0)''])]"
    if "float_str (Finite 5) = ''5.0''" for float_str
  proof -
    have "orders scenario_ordered =
        [(1, \<lparr>ord_id = 1, ord_customer_id = 7, ord_product_id = 10, ord_quantity = 2,
               ord_total_price = Finite 5\<rparr>)]"
      by (simp add: scenario_ordered_eq)
    from export_single_order[OF this order_city_scenario, of float_str] that
    show ?thesis by (simp add: Order_repr_scenario)
  qed
  show ?thesis
    apply (intro conjI allI impI)
         apply (rule 1)
        apply (rule 2)
       apply (rule 3)
      apply (rule 4)
     apply (erule conjE, erule (1) export_single_order)
    apply (erule 5)
    done
qed

theorem export_orders_grouped_by_city_witness:
  "str_float_integral (Finite 5) = ''5.0'' \<and>
   export_orders str_float_integral scenario_ordered =
     [(''NYC'', [''Order(id=1, customer_id=7, product_id=10, quantity=2, total_price=5.0)''])] \<and>
   orders scenario_ordered =
     [(1, \<lparr>ord_id = 1, ord_customer_id = 7, ord_product_id = 10, ord_quantity = 2,
            ord_total_price = Finite 5\<rparr>)] \<and>
   export_orders str_float_integral scenario_ordered =
     [(''NYC'', [Order_repr str_float_integral
        \<lparr>ord_id = 1, ord_customer_id = 7, ord_product_id = 10, ord_quantity = 2,
         ord_total_price = Finite 5\<rparr>])] \<and>
   export_orders str_float_integral scenario_two_cities =
     [(''NYC'', [''Order(id=1, customer_id=7, product_id=10, quantity=2, total_price=5.0)'',
                 ''Order(id=3, customer_id=9, product_id=10, quantity=2, total_price=5.0)'']),
      (''LA'', [''Order(id=2, customer_id=8, product_id=20, quantity=3, total_price=3.0)''])]"
proof -
  note t = export_orders_grouped_by_city
  let ?x = "\<lparr>ord_id = 1, ord_customer_id = 7, ord_product_id = 10, ord_quantity = 2,
            ord_total_price = Finite 5\<rparr>"
  have o: "orders scenario_ordered = [(1, ?x)]" by (simp add: scenario_ordered_eq)
  have h4: "orders scenario_ordered = [(1, ?x)] \<and> order_city scenario_ordered ?x = Some ''NYC''"
    using o order_city_scenario by simp
  have a: "export_orders str_float_integral scenario_ordered =
     [(''NYC'', [Order_repr str_float_integral ?x])]"
    using t[THEN conjunct2, THEN conjunct2, THEN conjunct2, THEN conjunct1, rule_format,
        of scenario_ordered 1 ?x "''NYC''" str_float_integral, OF h4] .
  have b: "export_orders str_float_integral scenario_ordered =
     [(''NYC'', [''Order(id=1, customer_id=7, product_id=10, quantity=2, total_price=5.0)''])]"
    using t[THEN conjunct2, THEN conjunct2, THEN conjunct2, THEN conjunct2, rule_format,
        of str_float_integral, OF str_float_integral_5] .
  have c: "export_orders str_float_integral scenario_two_cities =
     [(''NYC'', [''Order(id=1, customer_id=7, product_id=10, quantity=2, total_price=5.0)'',
                 ''Order(id=3, customer_id=9, product_id=10, quantity=2, total_price=5.0)'']),
      (''LA'', [''Order(id=2, customer_id=8, product_id=20, quantity=3, total_price=3.0)''])]"
    by code_simp
  from str_float_integral_5 a b c o show ?thesis by simp
qed

end
